theory Spec2Isabelle
  imports
    Complex_Main
    "HOL-Library.Sublist"
    "HOL-Library.Char_ord"
    "HOL-Library.List_Lexorder"
begin

section \<open>Python values used by \<^verbatim>\<open>main.py\<close>\<close>

subsection \<open>Strings\<close>

text \<open>
  A Python \<^verbatim>\<open>str\<close> is modelled as a \<^typ>\<open>string\<close>, one \<^typ>\<open>char\<close> per character
  (code points below 256). \<^verbatim>\<open>str.strip()\<close> without argument removes leading and trailing
  whitespace; in this range the whitespace characters of Python are
  \<^verbatim>\<open>\t \n \x0b \x0c \r \x1c \x1d \x1e \x1f space \x85 \xa0\<close>.
\<close>

definition is_space :: "char \<Rightarrow> bool" where
  "is_space c = ((of_char c :: nat) \<in> {9, 10, 11, 12, 13, 28, 29, 30, 31, 32, 133, 160})"

definition strip :: "string \<Rightarrow> string" where
  "strip s = rev (dropWhile is_space (rev (dropWhile is_space s)))"

text \<open>Decimal rendering of a non-negative integer, as an f-string does for \<^verbatim>\<open>len(...)\<close>.\<close>

definition digit_char :: "nat \<Rightarrow> char" where
  "digit_char d = char_of (48 + d)"

fun show_nat :: "nat \<Rightarrow> string" where
  "show_nat n = (if n < 10 then [digit_char n] else show_nat (n div 10) @ [digit_char (n mod 10)])"

subsection \<open>Decoded JSON\<close>

text \<open>
  The value of \<^verbatim>\<open>response.json()\<close>. A JSON object is a Python dict, kept as an association
  list in which the first binding of a key is the dict's entry. A float carries its exact
  rational value; \<open>JFloat None\<close> stands for the non-finite floats (\<^verbatim>\<open>NaN\<close>, \<^verbatim>\<open>Infinity\<close>),
  which Python's decoder accepts.
\<close>

datatype json =
    JNull
  | JBool bool
  | JInt int
  | JFloat "rat option"
  | JStr string
  | JList "json list"
  | JDict "(string \<times> json) list"

text \<open>The exceptions (all subclasses of \<^verbatim>\<open>Exception\<close>) that the modelled steps raise.\<close>

datatype exn =
    KeyError json
  | IndexError
  | TypeError
  | AttributeError
  | JSONDecodeError
  | HTTPError nat
  | RequestException string
  | OSError string
  | UnidentifiedImageError
  | ValueError string

text \<open>Truth value of \<^verbatim>\<open>not x\<close> / \<^verbatim>\<open>if x\<close> on a decoded JSON value.\<close>

fun py_truthy :: "json \<Rightarrow> bool" where
  "py_truthy JNull = False"
| "py_truthy (JBool b) = b"
| "py_truthy (JInt n) = (n \<noteq> 0)"
| "py_truthy (JFloat None) = True"
| "py_truthy (JFloat (Some r)) = (r \<noteq> 0)"
| "py_truthy (JStr s) = (s \<noteq> [])"
| "py_truthy (JList xs) = (xs \<noteq> [])"
| "py_truthy (JDict d) = (d \<noteq> [])"

text \<open>\<^verbatim>\<open>x[0]\<close>: the keys of a decoded JSON object are strings, so \<^verbatim>\<open>0\<close> is never one.\<close>

fun py_getitem0 :: "json \<Rightarrow> exn + json" where
  "py_getitem0 (JList []) = Inl IndexError"
| "py_getitem0 (JList (x # xs)) = Inr x"
| "py_getitem0 (JStr []) = Inl IndexError"
| "py_getitem0 (JStr (c # cs)) = Inr (JStr [c])"
| "py_getitem0 (JDict d) = Inl (KeyError (JInt 0))"
| "py_getitem0 v = Inl TypeError"

text \<open>\<^verbatim>\<open>x[key]\<close> with a string key.\<close>

fun py_getitem :: "json \<Rightarrow> string \<Rightarrow> exn + json" where
  "py_getitem (JDict d) k = (case map_of d k of Some v \<Rightarrow> Inr v | None \<Rightarrow> Inl (KeyError (JStr k)))"
| "py_getitem v k = Inl TypeError"

text \<open>\<^verbatim>\<open>x.get(key)\<close>: only a dict has the method; a missing key gives \<^verbatim>\<open>None\<close>.\<close>

fun py_get :: "json \<Rightarrow> string \<Rightarrow> exn + json option" where
  "py_get (JDict d) k = Inr (map_of d k)"
| "py_get v k = Inl AttributeError"

text \<open>\<^verbatim>\<open>x.get(key, default)\<close>.\<close>

definition py_get_default :: "json \<Rightarrow> string \<Rightarrow> json \<Rightarrow> exn + json" where
  "py_get_default x k dflt =
     (case py_get x k of Inl e \<Rightarrow> Inl e | Inr None \<Rightarrow> Inr dflt | Inr (Some v) \<Rightarrow> Inr v)"

text \<open>
  \<^verbatim>\<open>v == n\<close> for the result \<open>v\<close> of a \<^verbatim>\<open>.get\<close> and an int literal \<open>n\<close>: numbers compare by
  value (an int, a float of that value, and \<^verbatim>\<open>True\<close>/\<^verbatim>\<open>False\<close> as 1/0); anything else,
  and a missing key (\<^verbatim>\<open>None\<close>), is unequal.
\<close>

fun py_eq_int :: "json option \<Rightarrow> int \<Rightarrow> bool" where
  "py_eq_int (Some (JInt m)) n = (m = n)"
| "py_eq_int (Some (JFloat (Some r))) n = (r = of_int n)"
| "py_eq_int (Some (JBool b)) n = ((if b then 1 else 0) = n)"
| "py_eq_int v n = False"

text \<open>
  \<^verbatim>\<open>for g in x\<close>: a list yields its elements, a dict its keys in the order of their
  first binding, a string its characters.
\<close>

fun py_iter :: "json \<Rightarrow> exn + json list" where
  "py_iter (JList xs) = Inr xs"
| "py_iter (JDict d) = Inr (map (\<lambda>k. JStr k) (rev (remdups (rev (map fst d)))))"
| "py_iter (JStr s) = Inr (map (\<lambda>c. JStr [c]) s)"
| "py_iter v = Inl TypeError"

text \<open>
  \<^verbatim>\<open>f'{v}'\<close>: a string is inserted as it is; for any other value the text is Python's
  \<^verbatim>\<open>str(v)\<close>, taken as the parameter \<open>fmt\<close>.
\<close>

definition format_value :: "(json \<Rightarrow> string) \<Rightarrow> json \<Rightarrow> string" where
  "format_value fmt v = (case v of JStr s \<Rightarrow> s | _ \<Rightarrow> fmt v)"

subsection \<open>Paths\<close>

text \<open>
  \<^verbatim>\<open>pathlib.Path\<close> on a POSIX system: a path is its anchor (\<^verbatim>\<open>''\<close>, \<^verbatim>\<open>'/'\<close> or \<^verbatim>\<open>'//'\<close>) and
  its components; parsing drops empty and \<^verbatim>\<open>'.'\<close> components, and joining with an
  absolute path discards the left operand.
\<close>

type_synonym path = "string \<times> string list"

fun split_on :: "char \<Rightarrow> string \<Rightarrow> string list" where
  "split_on c [] = [[]]"
| "split_on c (x # xs) =
     (if x = c then [] # split_on c xs
      else (case split_on c xs of [] \<Rightarrow> [[x]] | y # ys \<Rightarrow> (x # y) # ys))"

definition path_anchor :: "string \<Rightarrow> string" where
  "path_anchor s =
     (if take 2 s = ''//'' \<and> take 3 s \<noteq> ''///'' then ''//''
      else if take 1 s = ''/'' then ''/'' else '''')"

definition Path :: "string \<Rightarrow> path" where
  "Path s = (path_anchor s, filter (\<lambda>c. c \<noteq> [] \<and> c \<noteq> ''.'') (split_on CHR ''/'' s))"

text \<open>\<^verbatim>\<open>p / q\<close> for a path \<open>p\<close> and a string \<open>q\<close>.\<close>

definition path_join :: "path \<Rightarrow> string \<Rightarrow> path" where
  "path_join p q = (if fst (Path q) \<noteq> [] then Path q else (fst p, snd p @ snd (Path q)))"

text \<open>The entry \<open>n\<close> of the directory \<open>p\<close>, as \<^verbatim>\<open>iterdir\<close> builds it; \<^verbatim>\<open>.name\<close> is the last component.\<close>

definition path_child :: "path \<Rightarrow> string \<Rightarrow> path" where
  "path_child p n = (fst p, snd p @ [n])"

definition path_name :: "path \<Rightarrow> string" where
  "path_name p = (if snd p = [] then [] else last (snd p))"

definition path_parent :: "path \<Rightarrow> path" where
  "path_parent p = (fst p, butlast (snd p))"

subsection \<open>Images\<close>

text \<open>
  A Pillow image is the term of library calls that built it, over decoded pixel data
  \<open>Raster id mode size\<close>. In-place operations (\<^verbatim>\<open>putalpha\<close>, drawing) give the term of the
  mutated image. \<open>image_size\<close> is the \<^verbatim>\<open>.size\<close> attribute.
\<close>

datatype image =
    Raster nat string "nat \<times> nat"
  | Convert image string
  | NewImage string "nat \<times> nat" nat
  | RoundedRectangle image "(nat \<times> nat) \<times> (nat \<times> nat)" nat nat
  | PutAlpha image image
  | Resize image "nat \<times> nat" string
  | AlphaComposite image image

fun image_size :: "image \<Rightarrow> nat \<times> nat" where
  "image_size (Raster i m sz) = sz"
| "image_size (Convert im m) = image_size im"
| "image_size (NewImage m sz c) = sz"
| "image_size (RoundedRectangle im box r c) = image_size im"
| "image_size (PutAlpha im alpha) = image_size im"
| "image_size (Resize im sz f) = sz"
| "image_size (AlphaComposite im1 im2) = image_size im1"

subsection \<open>The file system, the network and the library, as the program meets them\<close>

datatype content = Bytes string | PngOf image

datatype node = File content | Dir

datatype io_op = Stat path | ListDir path | MkDir path | ReadFile path | WriteFile path

record request =
  req_url :: json
  req_headers :: "(string \<times> string) list"
  req_params :: "(string \<times> string) list"
  req_timeout :: nat

text \<open>A response: its status, \<^verbatim>\<open>.json()\<close> (\<open>None\<close> when the body is not JSON) and \<^verbatim>\<open>.content\<close>.\<close>

record response =
  status_code :: nat
  resp_json :: "json option"
  resp_content :: string

text \<open>The lines \<^verbatim>\<open>self.log\<close> is called with, one constructor per call site.\<close>

datatype logline =
    LAdded string
  | LRemoved string
  | LQueueCleared
  | LProcessing nat
  | LItem nat nat string
  | LComplete
  | LNotFound
  | LFound json
  | LNoIcons
  | LDownloading
  | LDownloadFailed
  | LOverlayFailed
  | LSaved
  | LError exn
  | LOverlayNotFound path
  | LOverlayError exn

text \<open>
  The state: the attributes of \<^verbatim>\<open>SteamGridOverlayApp\<close> that the modelled methods use, the two
  module constants, and the environment.
  \<^item> \<open>queue_layout\<close> is the children list of the queue's grid: one card per queued game, a
    card being its identity and the text of its label; \<open>cards_made\<close> counts the cards created
    so far and gives the next card its identity.
  \<^item> \<open>overlays_path_input\<close> is \<open>None\<close> until \<^verbatim>\<open>build\<close> has created the widget (\<^verbatim>\<open>hasattr\<close>).
  \<^item> \<open>log_label\<close> is the list of logged lines, \<open>popups\<close> the popups opened (title, message).
  \<^item> \<open>DEFAULT_OUTPUT\<close> and \<open>DEFAULT_OVERLAYS\<close> are the module constants of lines 41-42 and
    48-49. On the desktop they are the directory of \<^verbatim>\<open>main.py\<close>, made absolute, joined with
    \<^verbatim>\<open>Output\<close> and \<^verbatim>\<open>icon_overlays\<close> (line 45: the \<^verbatim>\<open>hasattr\<close> test always holds, so
    \<^verbatim>\<open>Path.cwd()\<close> is never taken), not the working directory.
  \<^item> \<open>nodes\<close> is the file system: what lies at a location, a location being an anchor
    (\<^verbatim>\<open>/\<close> or \<^verbatim>\<open>//\<close>) and the names that lead from it, without \<^verbatim>\<open>..\<close>; the root directory
    itself is always there. \<open>cwd\<close> is the working directory of the process, by the names
    that lead to it from \<^verbatim>\<open>/\<close>. Symbolic links are not modelled.
  \<^item> \<open>listdir\<close> gives the names \<^verbatim>\<open>os.listdir\<close> returns for the directory at a location, in
    the system's order, and \<open>io_fault\<close> the error, if any, with which the system refuses an
    operation on a path for a reason other than a missing entry (permissions, I/O errors,
    a full disk).
  \<^item> \<open>net\<close> is the list of calls of \<^verbatim>\<open>requests.get\<close> made so far; \<open>http\<close> gives the outcome of
    a call from the number of earlier calls and the request (\<open>Inl\<close>: the call raised).
  \<^item> \<open>decode\<close> is \<^verbatim>\<open>Image.open\<close> on file contents (\<open>None\<close>: not a supported image);
    \<open>pil_fault\<close> is the error, if any, with which Pillow refuses to build an image;
    \<open>py_str\<close> is Python's \<^verbatim>\<open>str\<close> on decoded JSON values.
\<close>

record app =
  game_queue :: "string list"
  game_name_input :: string
  api_key_input :: string
  console_spinner :: string
  overlays_path_input :: "string option"
  queue_layout :: "(nat \<times> string) list"
  cards_made :: nat
  log_label :: "logline list"
  popups :: "(string \<times> string) list"
  DEFAULT_OUTPUT :: path
  DEFAULT_OVERLAYS :: path
  nodes :: "path \<Rightarrow> node option"
  cwd :: "string list"
  listdir :: "path \<Rightarrow> string list"
  io_fault :: "io_op \<Rightarrow> exn option"
  net :: "request list"
  http :: "nat \<Rightarrow> request \<Rightarrow> exn + response"
  decode :: "content \<Rightarrow> image option"
  pil_fault :: "image \<Rightarrow> exn option"
  py_str :: "json \<Rightarrow> string"

section \<open>The queue and the user interface\<close>

text \<open>
  \<^verbatim>\<open>log\<close> (lines 574-577), here \<open>log_line\<close>, appends a line to the log; \<^verbatim>\<open>show_popup\<close>
  (lines 579-588) opens a popup.
\<close>

definition log_line :: "logline \<Rightarrow> app \<Rightarrow> app" where
  "log_line message s = s\<lparr>log_label := log_label s @ [message]\<rparr>"

definition show_popup :: "string \<Rightarrow> string \<Rightarrow> app \<Rightarrow> app" where
  "show_popup title message s = s\<lparr>popups := popups s @ [(title, message)]\<rparr>"

text \<open>\<^verbatim>\<open>add_widget\<close> inserts at index 0 of the children; \<^verbatim>\<open>remove_widget\<close> removes that widget.\<close>

definition add_widget :: "nat \<times> string \<Rightarrow> (nat \<times> string) list \<Rightarrow> (nat \<times> string) list" where
  "add_widget w children = w # children"

definition remove_widget :: "nat \<Rightarrow> (nat \<times> string) list \<Rightarrow> (nat \<times> string) list" where
  "remove_widget w children = filter (\<lambda>c. fst c \<noteq> w) children"

text \<open>\<^verbatim>\<open>list.remove(x)\<close>: removes the first element equal to \<open>x\<close>, \<^verbatim>\<open>ValueError\<close> when there is none.\<close>

fun list_remove :: "'a \<Rightarrow> 'a list \<Rightarrow> exn + 'a list" where
  "list_remove x [] = Inl (ValueError ''list.remove(x): x not in list'')"
| "list_remove x (y # ys) =
     (if y = x then Inr ys
      else (case list_remove x ys of Inl e \<Rightarrow> Inl e | Inr zs \<Rightarrow> Inr (y # zs)))"

text \<open>\<^verbatim>\<open>add_game\<close> (lines 520-559).\<close>

definition add_game :: "app \<Rightarrow> app" where
  "add_game s =
     (let game_name = strip (game_name_input s) in
      if game_name \<noteq> [] then
        log_line (LAdded game_name)
          (s\<lparr>game_queue := game_queue s @ [game_name],
             queue_layout := add_widget (cards_made s, game_name) (queue_layout s),
             cards_made := Suc (cards_made s),
             game_name_input := []\<rparr>)
      else s)"

text \<open>
  \<^verbatim>\<open>remove_game\<close> (lines 561-566), called by the remove button of the card \<open>widget\<close> with the
  name the card was added with. The \<^verbatim>\<open>in\<close> test guards \<^verbatim>\<open>list.remove\<close>, so the \<open>Inl\<close> branch
  below is never taken.
\<close>

definition remove_game :: "nat \<Rightarrow> string \<Rightarrow> app \<Rightarrow> exn + app" where
  "remove_game widget game_name s =
     (case (if game_name \<in> set (game_queue s)
            then (case list_remove game_name (game_queue s) of
                    Inl e \<Rightarrow> Inl e
                  | Inr q \<Rightarrow> Inr (s\<lparr>game_queue := q\<rparr>))
            else Inr s) of
        Inl e \<Rightarrow> Inl e
      | Inr s1 \<Rightarrow>
          Inr (log_line (LRemoved game_name)
                 (s1\<lparr>queue_layout := remove_widget widget (queue_layout s1)\<rparr>)))"

text \<open>\<^verbatim>\<open>clear_queue\<close> (lines 568-572).\<close>

definition clear_queue :: "app \<Rightarrow> app" where
  "clear_queue s = log_line LQueueCleared (s\<lparr>game_queue := [], queue_layout := []\<rparr>)"

text \<open>
  What the user does to the queue: pressing Add with a text in the input field, pressing
  the remove button of a card, pressing Clear. A run of events stops at the first
  exception.
\<close>

datatype event = AddGame string | RemoveGame nat string | ClearQueue

definition apply_event :: "event \<Rightarrow> app \<Rightarrow> exn + app" where
  "apply_event ev s =
     (case ev of
        AddGame t \<Rightarrow> Inr (add_game (s\<lparr>game_name_input := t\<rparr>))
      | RemoveGame w n \<Rightarrow> remove_game w n s
      | ClearQueue \<Rightarrow> Inr (clear_queue s))"

fun run_events :: "event list \<Rightarrow> app \<Rightarrow> exn + app" where
  "run_events [] s = Inr s"
| "run_events (ev # evs) s =
     (case apply_event ev s of Inl e \<Rightarrow> Inl e | Inr s1 \<Rightarrow> run_events evs s1)"

section \<open>File system operations\<close>

text \<open>
  How the system resolves a path. It walks the components from the anchor, a relative
  path from the working directory: before each component the place reached so far must
  be a directory (\<^verbatim>\<open>FileNotFoundError\<close> when nothing is there, \<^verbatim>\<open>NotADirectoryError\<close> when
  a file is), \<^verbatim>\<open>..\<close> steps to the parent directory, the root being its own parent, and
  any other name steps to the entry of that name, present or not. \<open>locate\<close> gives the
  location a path resolves to.
\<close>

definition node_at :: "(path \<Rightarrow> node option) \<Rightarrow> path \<Rightarrow> node option" where
  "node_at fs q = (if snd q = [] then Some Dir else fs q)"

fun walk :: "(path \<Rightarrow> node option) \<Rightarrow> string \<Rightarrow> string list \<Rightarrow> string list \<Rightarrow> exn + path" where
  "walk fs a cur [] = Inr (a, cur)"
| "walk fs a cur (c # cs) =
     (case node_at fs (a, cur) of
        None \<Rightarrow> Inl (OSError ''FileNotFoundError'')
      | Some (File x) \<Rightarrow> Inl (OSError ''NotADirectoryError'')
      | Some Dir \<Rightarrow> walk fs a (if c = ''..'' then butlast cur else cur @ [c]) cs)"

definition locate :: "app \<Rightarrow> path \<Rightarrow> exn + path" where
  "locate s p =
     (if fst p = [] then walk (nodes s) ''/'' [] (cwd s @ snd p)
      else walk (nodes s) (fst p) [] (snd p))"

text \<open>
  \<^verbatim>\<open>Path.exists\<close> and \<^verbatim>\<open>Path.is_dir\<close>: \<^verbatim>\<open>os.stat\<close> on the path, a path that does not resolve
  or resolves to nothing giving \<^verbatim>\<open>False\<close>, any other error of the system being raised.
\<close>

definition fs_exists :: "app \<Rightarrow> path \<Rightarrow> bool" where
  "fs_exists s p =
     (case locate s p of Inl e \<Rightarrow> False | Inr q \<Rightarrow> node_at (nodes s) q \<noteq> None)"

definition fs_is_dir :: "app \<Rightarrow> path \<Rightarrow> bool" where
  "fs_is_dir s p =
     (case locate s p of Inl e \<Rightarrow> False | Inr q \<Rightarrow> node_at (nodes s) q = Some Dir)"

definition path_exists :: "app \<Rightarrow> path \<Rightarrow> exn + bool" where
  "path_exists s p =
     (case io_fault s (Stat p) of Some e \<Rightarrow> Inl e | None \<Rightarrow> Inr (fs_exists s p))"

definition path_is_dir :: "app \<Rightarrow> path \<Rightarrow> exn + bool" where
  "path_is_dir s p =
     (case io_fault s (Stat p) of Some e \<Rightarrow> Inl e | None \<Rightarrow> Inr (fs_is_dir s p))"

text \<open>\<^verbatim>\<open>Path.iterdir\<close>: the entries \<^verbatim>\<open>os.listdir\<close> names, each as a child of the path.\<close>

definition path_iterdir :: "app \<Rightarrow> path \<Rightarrow> exn + path list" where
  "path_iterdir s p =
     (case io_fault s (ListDir p) of
        Some e \<Rightarrow> Inl e
      | None \<Rightarrow>
          (case locate s p of
             Inl e \<Rightarrow> Inl e
           | Inr q \<Rightarrow>
               (case node_at (nodes s) q of
                  None \<Rightarrow> Inl (OSError ''FileNotFoundError'')
                | Some (File c) \<Rightarrow> Inl (OSError ''NotADirectoryError'')
                | Some Dir \<Rightarrow> Inr (map (path_child p) (listdir s q)))))"

text \<open>
  A node that appears at the location \<open>q\<close>: when nothing was there, its name joins the
  listing of its directory.
\<close>

definition put_node :: "path \<Rightarrow> node \<Rightarrow> app \<Rightarrow> app" where
  "put_node q n s =
     s\<lparr>nodes := (nodes s)(q \<mapsto> n),
       listdir := (if nodes s q = None
                   then (listdir s)(path_parent q := listdir s (path_parent q) @ [path_name q])
                   else listdir s)\<rparr>"

text \<open>
  \<^verbatim>\<open>os.mkdir(p)\<close>: the path must resolve, and nothing may be there
  (\<^verbatim>\<open>FileExistsError\<close>).
\<close>

definition os_mkdir :: "path \<Rightarrow> app \<Rightarrow> exn + app" where
  "os_mkdir p s =
     (case io_fault s (MkDir p) of
        Some e \<Rightarrow> Inl e
      | None \<Rightarrow>
          (case locate s p of
             Inl e \<Rightarrow> Inl e
           | Inr q \<Rightarrow>
               if node_at (nodes s) q \<noteq> None then Inl (OSError ''FileExistsError'')
               else Inr (put_node q Dir s)))"

text \<open>
  \<^verbatim>\<open>p.mkdir(parents=True, exist_ok=True)\<close>, as \<^verbatim>\<open>pathlib\<close> does it. \<^verbatim>\<open>os.mkdir\<close> is tried
  first. On \<^verbatim>\<open>FileNotFoundError\<close> the parent is made in the same way and \<^verbatim>\<open>os.mkdir\<close> is
  tried once more, a second \<^verbatim>\<open>FileNotFoundError\<close> being raised; a path that is its own
  parent raises at once. Any other \<^verbatim>\<open>OSError\<close> is dropped when the path is a directory and
  raised again otherwise (\<open>mkdir_exist_ok\<close>). Directories made before an error stay.
\<close>

definition mkdir_exist_ok :: "exn \<Rightarrow> path \<Rightarrow> app \<Rightarrow> exn + unit" where
  "mkdir_exist_ok e p s =
     (case e of
        OSError n \<Rightarrow>
          (case path_is_dir s p of
             Inl e2 \<Rightarrow> Inl e2
           | Inr d \<Rightarrow> if d then Inr () else Inl e)
      | _ \<Rightarrow> Inl e)"

function path_mkdir :: "path \<Rightarrow> app \<Rightarrow> app \<times> (exn + unit)" where
  "path_mkdir p s =
     (case os_mkdir p s of
        Inr s1 \<Rightarrow> (s1, Inr ())
      | Inl e \<Rightarrow>
          if e = OSError ''FileNotFoundError'' then
            (if snd p = [] then (s, Inl e)
             else
               (case path_mkdir (path_parent p) s of
                  (s2, Inl e2) \<Rightarrow> (s2, Inl e2)
                | (s2, Inr u) \<Rightarrow>
                    (case os_mkdir p s2 of
                       Inr s3 \<Rightarrow> (s3, Inr ())
                     | Inl e3 \<Rightarrow>
                         (s2, if e3 = OSError ''FileNotFoundError'' then Inl e3
                              else mkdir_exist_ok e3 p s2))))
          else (s, mkdir_exist_ok e p s))"
  by pat_completeness auto

termination
  by (relation "measure (\<lambda>(p, s). length (snd p))") (auto simp: path_parent_def)

declare path_mkdir.simps [simp del]

text \<open>
  \<^verbatim>\<open>Image.open(p)\<close> and \<^verbatim>\<open>im.save(p, 'PNG')\<close>. Saving opens the file for writing: the path
  must resolve and must not be a directory; a file that is there is truncated, a file
  that is not is created. A save that the system refuses is taken to leave the file
  system as it was.
\<close>

definition image_open :: "app \<Rightarrow> path \<Rightarrow> exn + image" where
  "image_open s p =
     (case io_fault s (ReadFile p) of
        Some e \<Rightarrow> Inl e
      | None \<Rightarrow>
          (case locate s p of
             Inl e \<Rightarrow> Inl e
           | Inr q \<Rightarrow>
               (case node_at (nodes s) q of
                  None \<Rightarrow> Inl (OSError ''FileNotFoundError'')
                | Some Dir \<Rightarrow> Inl (OSError ''IsADirectoryError'')
                | Some (File c) \<Rightarrow>
                    (case decode s c of None \<Rightarrow> Inl UnidentifiedImageError | Some im \<Rightarrow> Inr im))))"

definition image_save :: "image \<Rightarrow> path \<Rightarrow> app \<Rightarrow> exn + app" where
  "image_save im p s =
     (case io_fault s (WriteFile p) of
        Some e \<Rightarrow> Inl e
      | None \<Rightarrow>
          (case locate s p of
             Inl e \<Rightarrow> Inl e
           | Inr q \<Rightarrow>
               if node_at (nodes s) q = Some Dir then Inl (OSError ''IsADirectoryError'')
               else Inr (put_node q (File (PngOf im)) s)))"

text \<open>A Pillow call that builds the image \<open>im\<close>, unless the library raises.\<close>

definition pil :: "app \<Rightarrow> image \<Rightarrow> exn + image" where
  "pil s im = (case pil_fault s im of Some e \<Rightarrow> Inl e | None \<Rightarrow> Inr im)"

section \<open>The console registry\<close>

text \<open>The list comprehension of \<^verbatim>\<open>get_available_consoles\<close> (lines 462-465).\<close>

fun consoles_in :: "app \<Rightarrow> path list \<Rightarrow> exn + string list" where
  "consoles_in s [] = Inr []"
| "consoles_in s (folder # rest) =
     (case path_is_dir s folder of
        Inl e \<Rightarrow> Inl e
      | Inr d \<Rightarrow>
          (case (if d then path_exists s (path_join folder ''overlay.png'') else Inr False) of
             Inl e \<Rightarrow> Inl e
           | Inr keep \<Rightarrow>
               (case consoles_in s rest of
                  Inl e \<Rightarrow> Inl e
                | Inr names \<Rightarrow> Inr (if keep then path_name folder # names else names))))"

text \<open>The folder that lines 456-459 choose.\<close>

definition overlays_folder_of :: "app \<Rightarrow> path" where
  "overlays_folder_of s =
     (case overlays_path_input s of
        Some t \<Rightarrow> if t \<noteq> [] then Path t else DEFAULT_OVERLAYS s
      | None \<Rightarrow> DEFAULT_OVERLAYS s)"

text \<open>
  The \<^verbatim>\<open>try\<close> block of \<^verbatim>\<open>get_available_consoles\<close> (lines 456-467): \<open>Inr (Some cs)\<close> is the
  \<^verbatim>\<open>return sorted(consoles)\<close>, \<open>Inr None\<close> leaving the block without returning.
\<close>

definition get_available_consoles_try :: "app \<Rightarrow> exn + string list option" where
  "get_available_consoles_try s =
     (let overlays_folder = overlays_folder_of s in
      case path_exists s overlays_folder of
        Inl e \<Rightarrow> Inl e
      | Inr False \<Rightarrow> Inr None
      | Inr True \<Rightarrow>
          (case path_iterdir s overlays_folder of
             Inl e \<Rightarrow> Inl e
           | Inr folders \<Rightarrow>
               (case consoles_in s folders of
                  Inl e \<Rightarrow> Inl e
                | Inr consoles \<Rightarrow> Inr (if consoles \<noteq> [] then Some (sort consoles) else None))))"

text \<open>
  \<^verbatim>\<open>get_available_consoles\<close> (lines 453-471). The exception handler prints to standard
  output, which the state does not record.
\<close>

definition get_available_consoles :: "app \<Rightarrow> string list" where
  "get_available_consoles s =
     (case get_available_consoles_try s of
        Inr (Some consoles) \<Rightarrow> consoles
      | _ \<Rightarrow> [''No consoles found''])"

section \<open>The remote service\<close>

definition requests_get :: "request \<Rightarrow> app \<Rightarrow> app \<times> (exn + response)" where
  "requests_get r s = (s\<lparr>net := net s @ [r]\<rparr>, http s (length (net s)) r)"

definition raise_for_status :: "response \<Rightarrow> exn + unit" where
  "raise_for_status r =
     (if 400 \<le> status_code r \<and> status_code r < 600 then Inl (HTTPError (status_code r))
      else Inr ())"

definition response_json :: "response \<Rightarrow> exn + json" where
  "response_json r = (case resp_json r of None \<Rightarrow> Inl JSONDecodeError | Some j \<Rightarrow> Inr j)"

definition autocomplete_endpoint :: string where
  "autocomplete_endpoint = ''https://www.steamgriddb.com/api/v2/search/autocomplete/''"

definition grids_endpoint :: string where
  "grids_endpoint = ''https://www.steamgriddb.com/api/v2/grids/game/''"

definition auth_headers :: "app \<Rightarrow> (string \<times> string) list" where
  "auth_headers s = [(''Authorization'', ''Bearer '' @ strip (api_key_input s))]"

text \<open>The \<^verbatim>\<open>try\<close> block of \<^verbatim>\<open>search_game\<close> (lines 658-660), after the call has returned or raised.\<close>

definition search_game_try :: "exn + response \<Rightarrow> exn + json" where
  "search_game_try outcome =
     (case outcome of
        Inl e \<Rightarrow> Inl e
      | Inr response \<Rightarrow>
          (case raise_for_status response of
             Inl e \<Rightarrow> Inl e
           | Inr u \<Rightarrow>
               (case response_json response of
                  Inl e \<Rightarrow> Inl e
                | Inr j \<Rightarrow> py_get_default j ''data'' (JList []))))"

text \<open>\<^verbatim>\<open>search_game\<close> (lines 652-662): the arguments of its call, and the method.\<close>

definition search_request :: "app \<Rightarrow> string \<Rightarrow> request" where
  "search_request s game_name =
     (let url = autocomplete_endpoint @ game_name;
          headers = auth_headers s
      in \<lparr>req_url = JStr url, req_headers = headers, req_params = [], req_timeout = 10\<rparr>)"

definition search_game :: "string \<Rightarrow> app \<Rightarrow> app \<times> json" where
  "search_game game_name s =
     (case requests_get (search_request s game_name) s of (s1, outcome) \<Rightarrow>
        (s1, case search_game_try outcome of Inl e \<Rightarrow> JList [] | Inr v \<Rightarrow> v))"

text \<open>The list comprehension of \<^verbatim>\<open>get_game_icons\<close> (line 674), with its short-circuit \<^verbatim>\<open>and\<close>.\<close>

fun icons_1024 :: "json list \<Rightarrow> exn + json list" where
  "icons_1024 [] = Inr []"
| "icons_1024 (g # grids) =
     (case py_get g ''width'' of
        Inl e \<Rightarrow> Inl e
      | Inr w \<Rightarrow>
          (case (if py_eq_int w 1024
                 then (case py_get g ''height'' of Inl e \<Rightarrow> Inl e | Inr h \<Rightarrow> Inr (py_eq_int h 1024))
                 else Inr False) of
             Inl e \<Rightarrow> Inl e
           | Inr keep \<Rightarrow>
               (case icons_1024 grids of
                  Inl e \<Rightarrow> Inl e
                | Inr rest \<Rightarrow> Inr (if keep then g # rest else rest))))"

definition get_game_icons_try :: "exn + response \<Rightarrow> exn + json list" where
  "get_game_icons_try outcome =
     (case outcome of
        Inl e \<Rightarrow> Inl e
      | Inr response \<Rightarrow>
          (case raise_for_status response of
             Inl e \<Rightarrow> Inl e
           | Inr u \<Rightarrow>
               (case response_json response of
                  Inl e \<Rightarrow> Inl e
                | Inr j \<Rightarrow>
                    (case py_get_default j ''data'' (JList []) of
                       Inl e \<Rightarrow> Inl e
                     | Inr grids \<Rightarrow>
                         (case py_iter grids of Inl e \<Rightarrow> Inl e | Inr gs \<Rightarrow> icons_1024 gs)))))"

text \<open>\<^verbatim>\<open>get_game_icons\<close> (lines 664-676): the arguments of its call, and the method.\<close>

definition icons_request :: "app \<Rightarrow> json \<Rightarrow> request" where
  "icons_request s game_id =
     (let url = grids_endpoint @ format_value (py_str s) game_id;
          headers = auth_headers s;
          params = [(''dimensions'', ''1024x1024''), (''types'', ''static'')]
      in \<lparr>req_url = JStr url, req_headers = headers, req_params = params, req_timeout = 10\<rparr>)"

definition get_game_icons :: "json \<Rightarrow> app \<Rightarrow> app \<times> json list" where
  "get_game_icons game_id s =
     (case requests_get (icons_request s game_id) s of (s1, outcome) \<Rightarrow>
        (s1, case get_game_icons_try outcome of Inl e \<Rightarrow> [] | Inr icons \<Rightarrow> icons))"

text \<open>\<^verbatim>\<open>download_image\<close> (lines 678-685); \<open>url\<close> is whatever the icon record holds.\<close>

definition download_image_try :: "app \<Rightarrow> exn + response \<Rightarrow> exn + image" where
  "download_image_try s outcome =
     (case outcome of
        Inl e \<Rightarrow> Inl e
      | Inr response \<Rightarrow>
          (case raise_for_status response of
             Inl e \<Rightarrow> Inl e
           | Inr u \<Rightarrow>
               (case decode s (Bytes (resp_content response)) of
                  None \<Rightarrow> Inl UnidentifiedImageError
                | Some im \<Rightarrow> pil s (Convert im ''RGBA''))))"

definition download_image :: "json \<Rightarrow> app \<Rightarrow> app \<times> image option" where
  "download_image url s =
     (case requests_get
             \<lparr>req_url = url, req_headers = [], req_params = [], req_timeout = 15\<rparr> s of
        (s1, outcome) \<Rightarrow>
          (s1, case download_image_try s1 outcome of Inl e \<Rightarrow> None | Inr im \<Rightarrow> Some im))"

section \<open>The overlay compositor\<close>

text \<open>The path of the frame asset (lines 690-691).\<close>

definition overlay_path_of :: "app \<Rightarrow> path" where
  "overlay_path_of s =
     (let overlays_folder =
            (case overlays_path_input s of Some t \<Rightarrow> Path t | None \<Rightarrow> DEFAULT_OVERLAYS s)
      in path_join (path_join overlays_folder (console_spinner s)) ''overlay.png'')"

text \<open>
  The \<^verbatim>\<open>try\<close> block of \<^verbatim>\<open>apply_overlay\<close> (lines 690-710): \<open>Inr None\<close> is the early
  \<^verbatim>\<open>return None\<close> of a missing asset.
\<close>

definition apply_overlay_try :: "image \<Rightarrow> app \<Rightarrow> app \<times> (exn + image option)" where
  "apply_overlay_try base_image s =
     (let overlay_path = overlay_path_of s in
      case path_exists s overlay_path of
        Inl e \<Rightarrow> (s, Inl e)
      | Inr False \<Rightarrow> (log_line (LOverlayNotFound overlay_path) s, Inr None)
      | Inr True \<Rightarrow>
          (s,
           case image_open s overlay_path of
             Inl e \<Rightarrow> Inl e
           | Inr opened \<Rightarrow>
           (case pil s (Convert opened ''RGBA'') of
             Inl e \<Rightarrow> Inl e
           | Inr overlay0 \<Rightarrow>
           (case (if image_size overlay0 \<noteq> image_size base_image
                  then pil s (Resize overlay0 (image_size base_image) ''LANCZOS'')
                  else Inr overlay0) of
             Inl e \<Rightarrow> Inl e
           | Inr overlay \<Rightarrow>
           (case pil s (NewImage ''L'' (image_size base_image) 0) of
             Inl e \<Rightarrow> Inl e
           | Inr blank \<Rightarrow>
           (let radius = 120 in
            case pil s (RoundedRectangle blank ((0, 0), image_size base_image) radius 255) of
             Inl e \<Rightarrow> Inl e
           | Inr rounded_mask \<Rightarrow>
           (case pil s (PutAlpha base_image rounded_mask) of
             Inl e \<Rightarrow> Inl e
           | Inr masked \<Rightarrow>
           (case pil s (AlphaComposite masked overlay) of
             Inl e \<Rightarrow> Inl e
           | Inr result \<Rightarrow> Inr (Some result)))))))))"

text \<open>\<^verbatim>\<open>apply_overlay\<close> (lines 687-713).\<close>

definition apply_overlay :: "image \<Rightarrow> app \<Rightarrow> app \<times> image option" where
  "apply_overlay base_image s =
     (case apply_overlay_try base_image s of
        (s1, Inl e) \<Rightarrow> (log_line (LOverlayError e) s1, None)
      | (s1, Inr r) \<Rightarrow> (s1, r))"

section \<open>The pipeline\<close>

text \<open>The output directory and file of lines 642 and 644.\<close>

definition output_dir_of :: "app \<Rightarrow> path" where
  "output_dir_of s = path_join (DEFAULT_OUTPUT s) (console_spinner s)"

definition output_path_of :: "app \<Rightarrow> json \<Rightarrow> path" where
  "output_path_of s name = path_join (output_dir_of s) (format_value (py_str s) name @ ''.png'')"

text \<open>
  The \<^verbatim>\<open>try\<close> block of \<^verbatim>\<open>process_single_game\<close> (lines 616-647): \<open>Inr ()\<close> is a return,
  \<open>Inl e\<close> an exception that leaves the block.
\<close>

definition process_single_game_try :: "string \<Rightarrow> app \<Rightarrow> app \<times> (exn + unit)" where
  "process_single_game_try game_name s0 =
     (case search_game game_name s0 of (s1, results) \<Rightarrow>
      if \<not> py_truthy results then (log_line LNotFound s1, Inr ())
      else
      (case py_getitem0 results of
         Inl e \<Rightarrow> (s1, Inl e)
       | Inr game \<Rightarrow>
      (case py_getitem game ''name'' of
         Inl e \<Rightarrow> (s1, Inl e)
       | Inr name \<Rightarrow>
      (let s2 = log_line (LFound name) s1 in
       case py_getitem game ''id'' of
         Inl e \<Rightarrow> (s2, Inl e)
       | Inr game_id \<Rightarrow>
      (case get_game_icons game_id s2 of (s3, icons) \<Rightarrow>
      (case icons of
         [] \<Rightarrow> (log_line LNoIcons s3, Inr ())
       | icon # others \<Rightarrow>
      (let s4 = log_line LDownloading s3 in
       case py_getitem icon ''url'' of
         Inl e \<Rightarrow> (s4, Inl e)
       | Inr url \<Rightarrow>
      (case download_image url s4 of
         (s5, None) \<Rightarrow> (log_line LDownloadFailed s5, Inr ())
       | (s5, Some img) \<Rightarrow>
      (case apply_overlay img s5 of
         (s6, None) \<Rightarrow> (log_line LOverlayFailed s6, Inr ())
       | (s6, Some result) \<Rightarrow>
      (case path_mkdir (output_dir_of s6) s6 of
         (s7, Inl e) \<Rightarrow> (s7, Inl e)
       | (s7, Inr u) \<Rightarrow>
      (case image_save result (output_path_of s7 name) s7 of
         Inl e \<Rightarrow> (s7, Inl e)
       | Inr s8 \<Rightarrow> (log_line LSaved s8, Inr ()))))))))))))"

text \<open>\<^verbatim>\<open>process_single_game\<close> (lines 613-650).\<close>

definition process_single_game :: "string \<Rightarrow> app \<Rightarrow> app" where
  "process_single_game game_name s =
     (case process_single_game_try game_name s of
        (s1, Inl e) \<Rightarrow> log_line (LError e) s1
      | (s1, Inr u) \<Rightarrow> s1)"

text \<open>The \<^verbatim>\<open>for\<close> loop of \<^verbatim>\<open>process_games\<close> (lines 606-608), from index \<open>i\<close> on.\<close>

fun process_loop :: "nat \<Rightarrow> string list \<Rightarrow> app \<Rightarrow> app" where
  "process_loop i [] s = s"
| "process_loop i (game_name # rest) s =
     process_loop (Suc i) rest
       (process_single_game game_name (log_line (LItem i (length (game_queue s)) game_name) s))"

text \<open>\<^verbatim>\<open>process_games\<close> (lines 590-611).\<close>

definition process_games :: "app \<Rightarrow> app" where
  "process_games s =
     (if game_queue s = [] then show_popup ''Empty Queue'' ''Please add games first!'' s
      else if strip (api_key_input s) = [] then show_popup ''No API Key'' ''Please enter API key!'' s
      else if console_spinner s \<in> set [''Select Console'', ''No consoles found'']
      then show_popup ''No Console'' ''Please select a console!'' s
      else
        (let s1 = log_line (LProcessing (length (game_queue s))) s;
             s2 = process_loop 1 (game_queue s1) s1;
             s3 = log_line LComplete s2
         in show_popup ''Complete''
              (''Processed '' @ show_nat (length (game_queue s3)) @ '' games!'') s3))"

section \<open>Notions of the specification\<close>

text \<open>
  Encoding of a URL path segment, as the specification's "URL-path-segment encoded" asks:
  an unreserved character (letter, digit, \<^verbatim>\<open>- . _ ~\<close>) stands for itself, any other
  character is a percent sign and its two hexadecimal digits.
\<close>

definition spec_unreserved :: "char \<Rightarrow> bool" where
  "spec_unreserved c =
     (let n = (of_char c :: nat) in
      (65 \<le> n \<and> n \<le> 90) \<or> (97 \<le> n \<and> n \<le> 122) \<or> (48 \<le> n \<and> n \<le> 57)
      \<or> c \<in> set ''-._~'')"

definition spec_hex_digit :: "nat \<Rightarrow> char" where
  "spec_hex_digit d = (if d < 10 then char_of (48 + d) else char_of (55 + d))"

definition spec_encode_char :: "char \<Rightarrow> string" where
  "spec_encode_char c =
     (if spec_unreserved c then [c]
      else [CHR ''%'', spec_hex_digit (of_char c div 16), spec_hex_digit (of_char c mod 16)])"

definition spec_encode_path_segment :: "string \<Rightarrow> string" where
  "spec_encode_path_segment name = concat (map spec_encode_char name)"

text \<open>The final path segment of a URL without query and fragment: what follows its last slash.\<close>

definition spec_final_segment :: "string \<Rightarrow> string" where
  "spec_final_segment url = last (split_on CHR ''/'' url)"

text \<open>
  A name that is one path component as it stands and names an entry: not empty, not
  \<^verbatim>\<open>.\<close> or \<^verbatim>\<open>..\<close>, without a slash.
\<close>

definition plain_component :: "string \<Rightarrow> bool" where
  "plain_component n = (n \<noteq> [] \<and> n \<noteq> ''.'' \<and> n \<noteq> ''..'' \<and> CHR ''/'' \<notin> set n)"

text \<open>
  The locations the system passes through when it resolves a path, whatever the file
  system holds: the starting point, and the place after each component. The last one is
  where the path leads when every step can be made.
\<close>

fun trail :: "string list \<Rightarrow> string list \<Rightarrow> string list list" where
  "trail cur [] = [cur]"
| "trail cur (c # cs) = cur # trail (if c = ''..'' then butlast cur else cur @ [c]) cs"

definition places :: "app \<Rightarrow> path \<Rightarrow> path list" where
  "places s p =
     (if fst p = [] then map (Pair ''/'') (trail [] (cwd s @ snd p))
      else map (Pair (fst p)) (trail [] (snd p)))"

text \<open>The names that a run of events appends to the queue after its last Clear.\<close>

fun added_names :: "event list \<Rightarrow> string list \<Rightarrow> string list" where
  "added_names [] acc = acc"
| "added_names (AddGame t # evs) acc =
     added_names evs (if strip t \<noteq> [] then acc @ [strip t] else acc)"
| "added_names (RemoveGame w n # evs) acc = added_names evs acc"
| "added_names (ClearQueue # evs) acc = added_names evs []"

text \<open>
  The add operations still present after a run of events, each with its position in the
  run and the name it added: a Remove of a name strikes the earliest add of that name
  that is still present, a Clear strikes them all. \<open>is_add evs a\<close> says that \<open>a\<close> is a
  position of \<open>evs\<close> with the Add of that name.
\<close>

fun strike :: "string \<Rightarrow> (nat \<times> string) list \<Rightarrow> (nat \<times> string) list" where
  "strike n [] = []"
| "strike n (a # as) = (if snd a = n then as else a # strike n as)"

fun present_adds :: "nat \<Rightarrow> event list \<Rightarrow> (nat \<times> string) list \<Rightarrow> (nat \<times> string) list" where
  "present_adds i [] acc = acc"
| "present_adds i (AddGame t # evs) acc =
     present_adds (Suc i) evs (if strip t \<noteq> [] then acc @ [(i, strip t)] else acc)"
| "present_adds i (RemoveGame w n # evs) acc = present_adds (Suc i) evs (strike n acc)"
| "present_adds i (ClearQueue # evs) acc = present_adds (Suc i) evs []"

definition is_add :: "event list \<Rightarrow> nat \<times> string \<Rightarrow> bool" where
  "is_add evs a =
     (fst a < length evs \<and>
      (case evs ! fst a of AddGame t \<Rightarrow> strip t = snd a | _ \<Rightarrow> False))"

text \<open>An icon candidate of width 1024 and height 1024.\<close>

definition square_1024 :: "json \<Rightarrow> bool" where
  "square_1024 g =
     (case g of
        JDict d \<Rightarrow> py_eq_int (map_of d ''width'') 1024 \<and> py_eq_int (map_of d ''height'') 1024
      | _ \<Rightarrow> False)"

text \<open>
  A call that failed in transport, or came back with a status of the 400s or 500s, with a
  body that is not JSON, or with JSON that is not an object.
\<close>

definition failed_response :: "exn + response \<Rightarrow> bool" where
  "failed_response outcome =
     (case outcome of
        Inl e \<Rightarrow> True
      | Inr r \<Rightarrow>
          (400 \<le> status_code r \<and> status_code r < 600) \<or>
          (case resp_json r of None \<Rightarrow> True | Some (JDict d) \<Rightarrow> False | Some v \<Rightarrow> True))"

text \<open>
  The names \<^verbatim>\<open>os.listdir\<close> gives for the directory a path resolves to. The entry \<open>n\<close> of
  \<open>folder\<close> is a console when it is a directory that holds an entry named \<^verbatim>\<open>overlay.png\<close>
  (\<^verbatim>\<open>exists()\<close> does not ask of which kind). The registry can inspect the entry when the
  system answers the two questions it asks: whether the entry is a directory and, if it
  is, whether \<^verbatim>\<open>overlay.png\<close> exists in it.
\<close>

definition entries_of :: "app \<Rightarrow> path \<Rightarrow> string list" where
  "entries_of s p = (case locate s p of Inl e \<Rightarrow> [] | Inr q \<Rightarrow> listdir s q)"

definition has_overlay :: "app \<Rightarrow> path \<Rightarrow> string \<Rightarrow> bool" where
  "has_overlay s folder n =
     (fs_is_dir s (path_child folder n) \<and>
      fs_exists s (path_child (path_child folder n) ''overlay.png''))"

definition inspectable :: "app \<Rightarrow> path \<Rightarrow> string \<Rightarrow> bool" where
  "inspectable s folder n =
     (io_fault s (Stat (path_child folder n)) = None \<and>
      (fs_is_dir s (path_child folder n) \<longrightarrow>
         io_fault s (Stat (path_child (path_child folder n) ''overlay.png'')) = None))"

text \<open>
  The lines one queue item leaves in the log: progress lines, then one line with the
  item's result (the specification's RunResult).
\<close>

fun outcome_line :: "logline \<Rightarrow> bool" where
  "outcome_line LNotFound = True"
| "outcome_line LNoIcons = True"
| "outcome_line LDownloadFailed = True"
| "outcome_line LOverlayFailed = True"
| "outcome_line LSaved = True"
| "outcome_line (LError e) = True"
| "outcome_line l = False"

fun progress_line :: "logline \<Rightarrow> bool" where
  "progress_line (LFound n) = True"
| "progress_line LDownloading = True"
| "progress_line (LOverlayNotFound p) = True"
| "progress_line (LOverlayError e) = True"
| "progress_line l = False"

definition item_lines :: "logline list \<Rightarrow> bool" where
  "item_lines ls = (ls \<noteq> [] \<and> outcome_line (last ls) \<and> list_all progress_line (butlast ls))"

text \<open>
  The log of a whole queue: for the items \<open>gs\<close>, numbered from \<open>i\<close>, of a queue of \<open>n\<close>
  items, the header of each item followed by that item's lines.
\<close>

fun item_blocks :: "nat \<Rightarrow> nat \<Rightarrow> string list \<Rightarrow> logline list list \<Rightarrow> logline list" where
  "item_blocks i n (g # gs) (ls # segs) = LItem i n g # ls @ item_blocks (Suc i) n gs segs"
| "item_blocks i n gs segs = []"

section \<open>A concrete installation\<close>

text \<open>
  The program lies in \<^verbatim>\<open>/opt/app\<close> and runs in \<^verbatim>\<open>/home/u\<close>, where the folder \<^verbatim>\<open>overlays\<close>
  holds two consoles, a folder without frame and a stray file; the queue has two games.
  The service knows Halo by a record that lacks its name, Zelda by a full record, Doom by
  a record whose name begins with a slash, Up by a record whose name begins with
  \<^verbatim>\<open>../\<close>; for Myst its \<^verbatim>\<open>data\<close> is a number, for Pong an empty list; the grids of game 3
  end with a stray string; any other request fails in transport.
\<close>

definition demo_nodes :: "path \<Rightarrow> node option" where
  "demo_nodes p =
     (if p \<in> set [(''/'', [''opt'']), (''/'', [''opt'', ''app'']),
                  (''/'', [''home'']), (''/'', [''home'', ''u'']),
                  (''/'', [''home'', ''u'', ''overlays'']),
                  (''/'', [''home'', ''u'', ''overlays'', ''NES'']),
                  (''/'', [''home'', ''u'', ''overlays'', ''GBA'']),
                  (''/'', [''home'', ''u'', ''overlays'', ''drafts''])]
      then Some Dir
      else if p \<in> set [(''/'', [''home'', ''u'', ''overlays'', ''NES'', ''overlay.png'']),
                       (''/'', [''home'', ''u'', ''overlays'', ''GBA'', ''overlay.png''])]
      then Some (File (Bytes ''frame''))
      else if p = (''/'', [''home'', ''u'', ''overlays'', ''notes.txt''])
      then Some (File (Bytes ''todo''))
      else None)"

definition demo_listdir :: "path \<Rightarrow> string list" where
  "demo_listdir p =
     (if p = (''/'', []) then [''opt'', ''home'']
      else if p = (''/'', [''opt'']) then [''app'']
      else if p = (''/'', [''home'']) then [''u'']
      else if p = (''/'', [''home'', ''u'']) then [''overlays'']
      else if p = (''/'', [''home'', ''u'', ''overlays''])
      then [''NES'', ''notes.txt'', ''drafts'', ''GBA'']
      else if p \<in> set [(''/'', [''home'', ''u'', ''overlays'', ''NES'']),
                       (''/'', [''home'', ''u'', ''overlays'', ''GBA''])]
      then [''overlay.png'']
      else [])"

definition demo_reply :: "json \<Rightarrow> response" where
  "demo_reply j = \<lparr>status_code = 200, resp_json = Some j, resp_content = []\<rparr>"

definition demo_grids :: "json list" where
  "demo_grids =
     [JDict [(''url'', JStr ''https://cdn/a.png''), (''width'', JInt 512), (''height'', JInt 512)],
      JDict [(''url'', JStr ''https://cdn/b.png''), (''width'', JInt 1024), (''height'', JInt 1024)],
      JDict [(''url'', JStr ''https://cdn/c.png''), (''width'', JInt 1024), (''height'', JInt 768)],
      JDict [(''url'', JStr ''https://cdn/d.png''), (''width'', JInt 1024), (''height'', JInt 1024)]]"

definition demo_http :: "nat \<Rightarrow> request \<Rightarrow> exn + response" where
  "demo_http k r =
     (if req_url r = JStr (autocomplete_endpoint @ ''Halo'')
      then Inr (demo_reply (JDict [(''data'', JList [JDict [(''id'', JInt 1)]])]))
      else if req_url r = JStr (autocomplete_endpoint @ ''Zelda'')
      then Inr (demo_reply (JDict [(''data'',
                  JList [JDict [(''id'', JInt 2), (''name'', JStr ''Zelda II'')]])]))
      else if req_url r = JStr (autocomplete_endpoint @ ''Doom'')
      then Inr (demo_reply (JDict [(''data'',
                  JList [JDict [(''id'', JInt 2), (''name'', JStr ''/Doom'')]])]))
      else if req_url r = JStr (autocomplete_endpoint @ ''Up'')
      then Inr (demo_reply (JDict [(''data'',
                  JList [JDict [(''id'', JInt 2), (''name'', JStr ''../Up'')]])]))
      else if req_url r = JStr (autocomplete_endpoint @ ''Myst'')
      then Inr (demo_reply (JDict [(''data'', JInt 5)]))
      else if req_url r = JStr (autocomplete_endpoint @ ''Pong'')
      then Inr (demo_reply (JDict [(''data'', JList [])]))
      else if req_url r = JStr (grids_endpoint @ ''2'')
      then Inr (demo_reply (JDict [(''data'', JList demo_grids)]))
      else if req_url r = JStr (grids_endpoint @ ''3'')
      then Inr (demo_reply (JDict [(''data'', JList (demo_grids @ [JStr ''junk'']))]))
      else if req_url r = JStr ''https://cdn/b.png''
      then Inr \<lparr>status_code = 200, resp_json = None, resp_content = ''icon''\<rparr>
      else Inl (RequestException ''unreachable''))"

definition demo_decode :: "content \<Rightarrow> image option" where
  "demo_decode c =
     (if c = Bytes ''icon'' then Some (Raster 1 ''RGB'' (1024, 1024))
      else if c = Bytes ''frame'' then Some (Raster 2 ''RGBA'' (512, 512))
      else None)"

definition demo_app :: app where
  "demo_app =
     \<lparr>game_queue = [''Halo'', ''Zelda''],
      game_name_input = [],
      api_key_input = '' abc '',
      console_spinner = ''NES'',
      overlays_path_input = Some ''overlays'',
      queue_layout = [(1, ''Zelda''), (0, ''Halo'')],
      cards_made = 2,
      log_label = [],
      popups = [],
      DEFAULT_OUTPUT = (''/'', [''opt'', ''app'', ''Output'']),
      DEFAULT_OVERLAYS = (''/'', [''opt'', ''app'', ''icon_overlays'']),
      nodes = demo_nodes,
      cwd = [''home'', ''u''],
      listdir = demo_listdir,
      io_fault = (\<lambda>op. None),
      net = [],
      http = demo_http,
      decode = demo_decode,
      pil_fault = (\<lambda>im. None),
      py_str = (\<lambda>v. if v = JInt 2 then ''2'' else if v = JInt 3 then ''3'' else ''?'')\<rparr>"

text \<open>The same installation when the system refuses to list the overlays folder.\<close>

definition demo_locked :: app where
  "demo_locked =
     demo_app\<lparr>io_fault :=
       (\<lambda>op. if op = ListDir ('''', [''overlays'']) then Some (OSError ''PermissionError'')
             else None)\<rparr>"

text \<open>
  The same installation when the folder \<^verbatim>\<open>drafts\<close> may be listed but not searched: the
  system refuses to look up \<^verbatim>\<open>overlay.png\<close> in it.
\<close>

definition demo_refused :: app where
  "demo_refused =
     demo_app\<lparr>io_fault :=
       (\<lambda>op. if op = Stat ('''', [''overlays'', ''drafts'', ''overlay.png''])
             then Some (OSError ''PermissionError'') else None)\<rparr>"

section \<open>The queue keeps its order\<close>

lemma list_remove_remove1: "x \<in> set xs \<Longrightarrow> list_remove x xs = Inr (remove1 x xs)"
  by (induction xs) auto

lemma remove_game_queue:
  "\<exists>s'. remove_game widget game_name s = Inr s' \<and>
        game_queue s' = remove1 game_name (game_queue s)"
  by (simp add: remove_game_def log_line_def list_remove_remove1 remove1_idem)

lemma remove1_split: "x \<notin> set xs \<Longrightarrow> remove1 x (xs @ x # ys) = xs @ ys"
  by (simp add: remove1_append)

lemma add_game_queue:
  "game_queue (add_game s) =
     (if strip (game_name_input s) \<noteq> [] then game_queue s @ [strip (game_name_input s)]
      else game_queue s)"
  by (simp add: add_game_def log_line_def Let_def)

lemma clear_queue_queue: "game_queue (clear_queue s) = []"
  by (simp add: clear_queue_def log_line_def)

lemma subseq_remove1: "subseq (remove1 x xs) xs"
  by (induction xs) auto

lemma run_events_subseq:
  "subseq (game_queue s) acc \<Longrightarrow>
   \<exists>s'. run_events evs s = Inr s' \<and> subseq (game_queue s') (added_names evs acc)"
proof (induction evs arbitrary: s acc)
  case Nil
  then show ?case by simp
next
  case (Cons ev evs)
  show ?case
  proof (cases ev)
    case (AddGame t)
    let ?s1 = "add_game (s\<lparr>game_name_input := t\<rparr>)"
    have "subseq (game_queue ?s1) (if strip t \<noteq> [] then acc @ [strip t] else acc)"
      using Cons.prems by (simp add: add_game_queue list_emb_append_mono)
    from Cons.IH [OF this] show ?thesis
      using AddGame by (simp add: apply_event_def)
  next
    case (RemoveGame w n)
    obtain s1 where s1: "remove_game w n s = Inr s1" "game_queue s1 = remove1 n (game_queue s)"
      using remove_game_queue by blast
    have "subseq (game_queue s1) acc"
      using s1(2) Cons.prems subseq_remove1 subseq_order.trans by metis
    from Cons.IH [OF this] show ?thesis
      using RemoveGame s1(1) by (simp add: apply_event_def)
  next
    case ClearQueue
    have "subseq (game_queue (clear_queue s)) []"
      by (simp add: clear_queue_queue)
    from Cons.IH [OF this] show ?thesis
      using ClearQueue by (simp add: apply_event_def)
  qed
qed

lemma strike_snd: "map snd (strike n acc) = remove1 n (map snd acc)"
  by (induction acc) auto

lemma set_strike: "set (strike n acc) \<subseteq> set acc"
  by (induction acc) auto

lemma sorted_strike:
  "sorted_wrt (<) (map fst acc) \<Longrightarrow> sorted_wrt (<) (map fst (strike n acc))"
proof (induction acc)
  case Nil
  then show ?case by simp
next
  case (Cons a acc)
  then show ?case using set_strike [of n acc] by auto
qed

lemma is_add_append: "is_add pre a \<Longrightarrow> is_add (pre @ evs) a"
  by (auto simp: is_add_def nth_append split: event.splits)

lemma present_adds_invariant:
  assumes "game_queue s = map snd acc" and "sorted_wrt (<) (map fst acc)"
    and "\<forall>a\<in>set acc. is_add pre a"
  shows "\<exists>s'. run_events evs s = Inr s' \<and>
           game_queue s' = map snd (present_adds (length pre) evs acc) \<and>
           sorted_wrt (<) (map fst (present_adds (length pre) evs acc)) \<and>
           (\<forall>a\<in>set (present_adds (length pre) evs acc). is_add (pre @ evs) a)"
  using assms
proof (induction evs arbitrary: s acc pre)
  case Nil
  then show ?case by simp
next
  case (Cons ev evs)
  have lt: "\<forall>a\<in>set acc. fst a < length pre"
    using Cons.prems(3) by (simp add: is_add_def)
  have old: "\<forall>a\<in>set acc. is_add (pre @ [ev]) a"
    using Cons.prems(3) is_add_append by blast
  show ?case
  proof (cases ev)
    case (AddGame t)
    let ?s1 = "add_game (s\<lparr>game_name_input := t\<rparr>)"
    let ?acc1 = "if strip t \<noteq> [] then acc @ [(length pre, strip t)] else acc"
    have q: "game_queue ?s1 = map snd ?acc1"
      using Cons.prems(1) by (simp add: add_game_queue)
    have so: "sorted_wrt (<) (map fst ?acc1)"
      using Cons.prems(2) lt by (auto simp: sorted_wrt_append)
    have new: "is_add (pre @ [ev]) (length pre, strip t)"
      using AddGame by (simp add: is_add_def)
    have ad: "\<forall>a\<in>set ?acc1. is_add (pre @ [ev]) a"
      using old new by auto
    from Cons.IH [OF q so ad] show ?thesis
      using AddGame by (simp add: apply_event_def)
  next
    case (RemoveGame w n)
    obtain s1 where s1: "remove_game w n s = Inr s1" "game_queue s1 = remove1 n (game_queue s)"
      using remove_game_queue by blast
    have q: "game_queue s1 = map snd (strike n acc)"
      using s1(2) Cons.prems(1) by (simp add: strike_snd)
    have so: "sorted_wrt (<) (map fst (strike n acc))"
      using Cons.prems(2) by (rule sorted_strike)
    have ad: "\<forall>a\<in>set (strike n acc). is_add (pre @ [ev]) a"
      using old set_strike [of n acc] by blast
    from Cons.IH [OF q so ad] show ?thesis
      using RemoveGame s1(1) by (simp add: apply_event_def)
  next
    case ClearQueue
    have q: "game_queue (clear_queue s) = map snd []" by (simp add: clear_queue_queue)
    have so: "sorted_wrt (<) (map fst ([] :: (nat \<times> string) list))" by simp
    have ad: "\<forall>a\<in>set ([] :: (nat \<times> string) list). is_add (pre @ [ev]) a" by simp
    from Cons.IH [OF q so ad] show ?thesis
      using ClearQueue by (simp add: apply_event_def)
  qed
qed

lemma present_adds_fresh:
  "game_queue s = [] \<Longrightarrow>
   \<exists>s'. run_events evs s = Inr s' \<and>
        game_queue s' = map snd (present_adds 0 evs []) \<and>
        sorted_wrt (<) (map fst (present_adds 0 evs [])) \<and>
        (\<forall>a\<in>set (present_adds 0 evs []). is_add evs a)"
  using present_adds_invariant [of s "[]" "[]" evs] by simp

text \<open>
  Claim C9. Whatever the user adds, removes and clears, no step raises, and from an empty
  queue the queue is the list of the names of the add operations still present, in the
  order in which they were made. In any case the queue is a subsequence, in the order of
  adding, of the names added since the last Clear (after those the queue began with).
  Step by step: Add appends the stripped name at the end (a blank name adds nothing),
  Remove deletes one entry \<open>n\<close> and leaves the entries before and after it in place, Clear
  empties the queue.
\<close>

theorem queue_order_preserved:
  "(game_queue s = [] \<longrightarrow>
      (\<exists>s'. run_events evs s = Inr s' \<and>
            game_queue s' = map snd (present_adds 0 evs []) \<and>
            sorted_wrt (<) (map fst (present_adds 0 evs [])) \<and>
            (\<forall>a\<in>set (present_adds 0 evs []). is_add evs a)))
   \<and> (\<exists>s'. run_events evs s = Inr s' \<and>
          subseq (game_queue s') (added_names evs (game_queue s)))
   \<and> (strip t \<noteq> [] \<longrightarrow>
        game_queue (add_game (s\<lparr>game_name_input := t\<rparr>)) = game_queue s @ [strip t])
   \<and> (\<forall>xs ys. game_queue s = xs @ n # ys \<and> n \<notin> set xs \<longrightarrow>
        (\<exists>s'. remove_game w n s = Inr s' \<and> game_queue s' = xs @ ys))
   \<and> game_queue (clear_queue s) = []"
proof -
  have p: "game_queue s = [] \<longrightarrow>
      (\<exists>s'. run_events evs s = Inr s' \<and>
            game_queue s' = map snd (present_adds 0 evs []) \<and>
            sorted_wrt (<) (map fst (present_adds 0 evs [])) \<and>
            (\<forall>a\<in>set (present_adds 0 evs []). is_add evs a))"
    using present_adds_fresh by blast
  have a: "\<exists>s'. run_events evs s = Inr s' \<and>
                subseq (game_queue s') (added_names evs (game_queue s))"
    by (rule run_events_subseq) simp
  have b: "strip t \<noteq> [] \<longrightarrow>
             game_queue (add_game (s\<lparr>game_name_input := t\<rparr>)) = game_queue s @ [strip t]"
    by (simp add: add_game_queue)
  have c: "\<forall>xs ys. game_queue s = xs @ n # ys \<and> n \<notin> set xs \<longrightarrow>
        (\<exists>s'. remove_game w n s = Inr s' \<and> game_queue s' = xs @ ys)"
    using remove_game_queue [of w n s] by (auto simp: remove1_split)
  show ?thesis using p a b c by (simp add: clear_queue_queue)
qed

theorem queue_order_preserved_witness:
  "game_queue (demo_app\<lparr>game_queue := []\<rparr>) = []
   \<and> present_adds 0 [AddGame ''Halo'', ClearQueue, AddGame ''  '', AddGame '' Metroid '',
                      AddGame ''Doom'', AddGame ''Metroid'', RemoveGame 5 ''Metroid''] []
       = [(4, ''Doom''), (5, ''Metroid'')]
   \<and> (\<exists>s'. run_events [AddGame ''Halo'', ClearQueue, AddGame ''  '', AddGame '' Metroid '',
                      AddGame ''Doom'', AddGame ''Metroid'', RemoveGame 5 ''Metroid'']
            (demo_app\<lparr>game_queue := []\<rparr>) = Inr s'
          \<and> game_queue s' = [''Doom'', ''Metroid''])
   \<and> (\<exists>s'. run_events [AddGame ''Halo'', ClearQueue, AddGame ''  '', AddGame '' Metroid '',
                      AddGame ''Doom'', AddGame ''Metroid'', RemoveGame 5 ''Metroid'']
            demo_app = Inr s'
          \<and> subseq (game_queue s') [''Metroid'', ''Doom'', ''Metroid''])
   \<and> strip '' Metroid '' \<noteq> []
   \<and> game_queue (add_game (demo_app\<lparr>game_name_input := '' Metroid ''\<rparr>))
       = [''Halo'', ''Zelda'', ''Metroid'']
   \<and> game_queue demo_app = [''Halo''] @ ''Zelda'' # [] \<and> ''Zelda'' \<notin> set [''Halo'']
   \<and> (\<exists>s'. remove_game 1 ''Zelda'' demo_app = Inr s' \<and> game_queue s' = [''Halo''] @ [])
   \<and> game_queue (clear_queue demo_app) = []"
proof -
  let ?evs = "[AddGame ''Halo'', ClearQueue, AddGame ''  '', AddGame '' Metroid '',
               AddGame ''Doom'', AddGame ''Metroid'', RemoveGame 5 ''Metroid'']"
  let ?e = "demo_app\<lparr>game_queue := []\<rparr>"
  note t = queue_order_preserved [of demo_app ?evs "'' Metroid ''" "''Zelda''" 1]
  note u = queue_order_preserved [of ?e ?evs "'' Metroid ''" "''Zelda''" 1]
  have h0: "game_queue ?e = []" by simp
  have h1: "strip '' Metroid '' = ''Metroid''" by code_simp
  have h2: "game_queue demo_app = [''Halo''] @ ''Zelda'' # []" by (simp add: demo_app_def)
  have h3: "added_names ?evs (game_queue demo_app) = [''Metroid'', ''Doom'', ''Metroid'']"
    by code_simp
  have h4: "''Zelda'' \<notin> set [''Halo'']" by simp
  have h5: "present_adds 0 ?evs [] = [(4, ''Doom''), (5, ''Metroid'')]" by code_simp
  from u h0 have "\<exists>s'. run_events ?evs ?e = Inr s' \<and>
                game_queue s' = map snd (present_adds 0 ?evs [])"
    by blast
  then have p: "\<exists>s'. run_events ?evs ?e = Inr s' \<and> game_queue s' = [''Doom'', ''Metroid'']"
    unfolding h5 by simp
  have a: "\<exists>s'. run_events ?evs demo_app = Inr s' \<and>
                subseq (game_queue s') [''Metroid'', ''Doom'', ''Metroid'']"
    using t unfolding h3 by blast
  have b: "game_queue (add_game (demo_app\<lparr>game_name_input := '' Metroid ''\<rparr>))
             = [''Halo'', ''Zelda'', ''Metroid'']"
    using t h1 h2 by simp
  have c: "\<exists>s'. remove_game 1 ''Zelda'' demo_app = Inr s' \<and> game_queue s' = [''Halo''] @ []"
    using t h2 h4 by blast
  have d: "game_queue (clear_queue demo_app) = []"
    using t by blast
  show ?thesis using p a b c d h0 h1 h2 h4 h5 by simp
qed

section \<open>Removing a game\<close>

text \<open>
  Claim C10. Removing a name that is not in the queue raises nothing and leaves the queue
  as it is. When the name is in the queue, the entry that goes is the first one with that
  name, whichever card's button asked for the removal: the card plays no part in what
  happens to the queue.
\<close>

theorem remove_game_first_occurrence:
  "(game_name \<notin> set (game_queue s) \<longrightarrow>
      (\<exists>s'. remove_game widget game_name s = Inr s' \<and> game_queue s' = game_queue s))
   \<and> (\<forall>xs ys. game_queue s = xs @ game_name # ys \<and> game_name \<notin> set xs \<longrightarrow>
        (\<exists>s'. remove_game widget game_name s = Inr s' \<and> game_queue s' = xs @ ys))
   \<and> (\<exists>s1 s2. remove_game widget game_name s = Inr s1 \<and>
                remove_game other game_name s = Inr s2 \<and> game_queue s1 = game_queue s2)"
proof -
  obtain s1 where s1: "remove_game widget game_name s = Inr s1"
      "game_queue s1 = remove1 game_name (game_queue s)"
    using remove_game_queue by blast
  obtain s2 where s2: "remove_game other game_name s = Inr s2"
      "game_queue s2 = remove1 game_name (game_queue s)"
    using remove_game_queue by blast
  have a: "game_name \<notin> set (game_queue s) \<longrightarrow>
      (\<exists>s'. remove_game widget game_name s = Inr s' \<and> game_queue s' = game_queue s)"
    using s1 by (simp add: remove1_idem)
  have b: "\<forall>xs ys. game_queue s = xs @ game_name # ys \<and> game_name \<notin> set xs \<longrightarrow>
        (\<exists>s'. remove_game widget game_name s = Inr s' \<and> game_queue s' = xs @ ys)"
    using s1 by (auto simp: remove1_split)
  have c: "\<exists>s1 s2. remove_game widget game_name s = Inr s1 \<and>
                remove_game other game_name s = Inr s2 \<and> game_queue s1 = game_queue s2"
    using s1 s2 by simp
  show ?thesis using a b c by blast
qed

theorem remove_game_first_occurrence_witness:
  "''Doom'' \<notin> set (game_queue demo_app)
   \<and> (\<exists>s'. remove_game 7 ''Doom'' demo_app = Inr s' \<and> game_queue s' = game_queue demo_app)
   \<and> game_queue (demo_app\<lparr>game_queue := [''Zelda'', ''Halo'', ''Zelda'']\<rparr>)
        = [] @ ''Zelda'' # [''Halo'', ''Zelda'']
   \<and> ''Zelda'' \<notin> set []
   \<and> (\<exists>s'. remove_game 2 ''Zelda'' (demo_app\<lparr>game_queue := [''Zelda'', ''Halo'', ''Zelda'']\<rparr>)
              = Inr s' \<and> game_queue s' = [] @ [''Halo'', ''Zelda''])"
proof -
  let ?s = "demo_app\<lparr>game_queue := [''Zelda'', ''Halo'', ''Zelda'']\<rparr>"
  have h1: "''Doom'' \<notin> set (game_queue demo_app)" by (simp add: demo_app_def)
  have h2: "game_queue ?s = [] @ ''Zelda'' # [''Halo'', ''Zelda'']" by simp
  have h3: "''Zelda'' \<notin> set []" by simp
  have a: "\<exists>s'. remove_game 7 ''Doom'' demo_app = Inr s' \<and> game_queue s' = game_queue demo_app"
    using remove_game_first_occurrence [of "''Doom''" demo_app 7 0] h1 by blast
  have b: "\<exists>s'. remove_game 2 ''Zelda'' ?s = Inr s' \<and> game_queue s' = [] @ [''Halo'', ''Zelda'']"
    using remove_game_first_occurrence [of "''Zelda''" ?s 2 0] h2 h3 by blast
  show ?thesis using a b h1 h2 h3 by blast
qed

section \<open>One item's failure does not stop the run\<close>

lemma requests_get_frame:
  "requests_get r s = (s1, out) \<Longrightarrow>
     log_label s1 = log_label s \<and> game_queue s1 = game_queue s \<and> popups s1 = popups s"
  by (auto simp: requests_get_def)

lemma search_game_frame:
  "search_game g s = (s1, res) \<Longrightarrow>
     log_label s1 = log_label s \<and> game_queue s1 = game_queue s \<and> popups s1 = popups s"
  by (auto simp: search_game_def requests_get_def Let_def)

lemma get_game_icons_frame:
  "get_game_icons i s = (s1, res) \<Longrightarrow>
     log_label s1 = log_label s \<and> game_queue s1 = game_queue s \<and> popups s1 = popups s"
  by (auto simp: get_game_icons_def requests_get_def Let_def)

lemma download_image_frame:
  "download_image u s = (s1, res) \<Longrightarrow>
     log_label s1 = log_label s \<and> game_queue s1 = game_queue s \<and> popups s1 = popups s"
  by (auto simp: download_image_def requests_get_def Let_def)

lemma apply_overlay_try_frame:
  "apply_overlay_try b s = (s1, res) \<Longrightarrow>
     (log_label s1 = log_label s \<or> (\<exists>p. log_label s1 = log_label s @ [LOverlayNotFound p]))
     \<and> game_queue s1 = game_queue s \<and> popups s1 = popups s"
  by (auto simp: apply_overlay_try_def log_line_def Let_def split: sum.splits bool.splits)

lemma apply_overlay_frame:
  "apply_overlay b s = (s1, res) \<Longrightarrow>
     (\<exists>ls. log_label s1 = log_label s @ ls \<and> list_all progress_line ls)
     \<and> game_queue s1 = game_queue s \<and> popups s1 = popups s"
proof -
  assume a: "apply_overlay b s = (s1, res)"
  obtain s0 r where t: "apply_overlay_try b s = (s0, r)" by (cases "apply_overlay_try b s")
  from apply_overlay_try_frame [OF t] a t show ?thesis
    by (auto simp: apply_overlay_def log_line_def split: sum.splits)
qed

lemma put_node_only: "\<exists>n l. put_node q x s = s\<lparr>nodes := n, listdir := l\<rparr>"
  by (rule exI [of _ "nodes (put_node q x s)"], rule exI [of _ "listdir (put_node q x s)"])
     (simp add: put_node_def)

lemma os_mkdir_only: "os_mkdir p s = Inr s1 \<Longrightarrow> \<exists>n l. s1 = s\<lparr>nodes := n, listdir := l\<rparr>"
  using put_node_only [of _ Dir s]
  by (auto simp: os_mkdir_def split: option.splits sum.splits if_splits)

text \<open>
  What holds of every successful \<^verbatim>\<open>os.mkdir\<close>, is reflexive and transitive, and passes
  from a path's parent to the path, holds of \<^verbatim>\<open>mkdir(parents=True, exist_ok=True)\<close>.
\<close>

lemma path_mkdir_steps:
  assumes refl: "\<And>p a. P p a a"
    and trans: "\<And>p a b c. P p a b \<Longrightarrow> P p b c \<Longrightarrow> P p a c"
    and step: "\<And>p a b. os_mkdir p a = Inr b \<Longrightarrow> P p a b"
    and up: "\<And>p a b. snd p \<noteq> [] \<Longrightarrow> P (path_parent p) a b \<Longrightarrow> P p a b"
  shows "path_mkdir p s = (s1, r) \<Longrightarrow> P p s s1"
proof (induction p s arbitrary: s1 r rule: path_mkdir.induct)
  case (1 p s)
  show ?case
  proof (cases "os_mkdir p s")
    case (Inr t)
    then have "s1 = t" using 1(2) by (simp add: path_mkdir.simps)
    then show ?thesis using step [OF Inr] by simp
  next
    case (Inl e)
    show ?thesis
    proof (cases "e = OSError ''FileNotFoundError'' \<and> snd p \<noteq> []")
      case False
      then have "s1 = s" using 1(2) Inl by (auto simp: path_mkdir.simps split: if_splits)
      then show ?thesis using refl by simp
    next
      case True
      obtain s2 r2 where rec: "path_mkdir (path_parent p) s = (s2, r2)"
        by (cases "path_mkdir (path_parent p) s")
      from 1(1) [OF Inl _ _ rec] True have "P (path_parent p) s s2" by blast
      then have s2: "P p s s2" using up True by blast
      show ?thesis
      proof (cases r2)
        case (Inl e2)
        then have "s1 = s2" using 1(2) \<open>os_mkdir p s = Inl e\<close> True rec
          by (simp add: path_mkdir.simps)
        then show ?thesis using s2 by blast
      next
        case (Inr u)
        show ?thesis
        proof (cases "os_mkdir p s2")
          case (Inl e3)
          then have "s1 = s2" using 1(2) \<open>os_mkdir p s = Inl e\<close> True rec Inr
            by (simp add: path_mkdir.simps)
          then show ?thesis using s2 by blast
        next
          case (Inr s3)
          then have "s1 = s3" using 1(2) \<open>os_mkdir p s = Inl e\<close> True rec \<open>r2 = Inr u\<close>
            by (simp add: path_mkdir.simps)
          then show ?thesis using s2 step [OF Inr] trans by blast
        qed
      qed
    qed
  qed
qed

lemma path_mkdir_only: "path_mkdir p s = (s1, r) \<Longrightarrow> \<exists>n l. s1 = s\<lparr>nodes := n, listdir := l\<rparr>"
proof (rule path_mkdir_steps [where P = "\<lambda>p a b. \<exists>n l. b = a\<lparr>nodes := n, listdir := l\<rparr>"])
  fix a :: app
  show "\<exists>n l. a = a\<lparr>nodes := n, listdir := l\<rparr>"
    by (rule exI [of _ "nodes a"], rule exI [of _ "listdir a"]) simp
next
  fix a b c :: app
  assume "\<exists>n l. b = a\<lparr>nodes := n, listdir := l\<rparr>" "\<exists>n l. c = b\<lparr>nodes := n, listdir := l\<rparr>"
  then obtain n l n' l' where "b = a\<lparr>nodes := n, listdir := l\<rparr>" "c = b\<lparr>nodes := n', listdir := l'\<rparr>"
    by blast
  then have "c = a\<lparr>nodes := n', listdir := l'\<rparr>" by simp
  then show "\<exists>n l. c = a\<lparr>nodes := n, listdir := l\<rparr>" by blast
next
  fix p a b
  assume "os_mkdir p a = Inr b"
  then show "\<exists>n l. b = a\<lparr>nodes := n, listdir := l\<rparr>" by (rule os_mkdir_only)
next
  fix a b :: app
  assume "\<exists>n l. b = a\<lparr>nodes := n, listdir := l\<rparr>"
  then show "\<exists>n l. b = a\<lparr>nodes := n, listdir := l\<rparr>" .
qed

lemma image_save_only:
  "image_save im p s = Inr s1 \<Longrightarrow> \<exists>n l. s1 = s\<lparr>nodes := n, listdir := l\<rparr>"
  using put_node_only [of _ "File (PngOf im)" s]
  by (auto simp: image_save_def split: option.splits sum.splits if_splits)

lemma path_mkdir_frame:
  "path_mkdir p s = (s1, r) \<Longrightarrow>
     log_label s1 = log_label s \<and> game_queue s1 = game_queue s \<and> popups s1 = popups s"
  by (auto dest!: path_mkdir_only)

lemma image_save_frame:
  "image_save im p s = Inr s1 \<Longrightarrow>
     log_label s1 = log_label s \<and> game_queue s1 = game_queue s \<and> popups s1 = popups s"
  by (auto dest!: image_save_only)


lemma item_lines_outcome: "outcome_line l \<Longrightarrow> item_lines [l]"
  by (simp add: item_lines_def)

lemma item_lines_append:
  "list_all progress_line ls \<Longrightarrow> item_lines ms \<Longrightarrow> item_lines (ls @ ms)"
  by (auto simp: item_lines_def butlast_append)

lemma process_single_game_try_frame:
  "process_single_game_try g s = (s1, res) \<Longrightarrow>
     game_queue s1 = game_queue s \<and> popups s1 = popups s \<and>
     (\<exists>ls. log_label s1 = log_label s @ ls \<and>
        (case res of Inl e \<Rightarrow> list_all progress_line ls | Inr u \<Rightarrow> item_lines ls))"
  unfolding process_single_game_try_def
  apply (auto simp: log_line_def Let_def item_lines_def butlast_append
      split: prod.splits if_splits sum.splits list.splits option.splits
      dest!: search_game_frame get_game_icons_frame download_image_frame apply_overlay_frame
             path_mkdir_frame image_save_frame)
  done

lemma process_single_game_frame:
  "game_queue (process_single_game g s) = game_queue s \<and>
   popups (process_single_game g s) = popups s \<and>
   (\<exists>ls. log_label (process_single_game g s) = log_label s @ ls \<and> item_lines ls)"
proof -
  obtain s1 res where t: "process_single_game_try g s = (s1, res)"
    by (cases "process_single_game_try g s")
  from process_single_game_try_frame [OF t] t show ?thesis
    by (auto simp: process_single_game_def log_line_def item_lines_def butlast_append split: sum.splits)
qed


lemma process_loop_frame:
  "\<exists>segs. length segs = length gs \<and> list_all item_lines segs \<and>
      log_label (process_loop i gs s) = log_label s @ item_blocks i (length (game_queue s)) gs segs \<and>
      game_queue (process_loop i gs s) = game_queue s \<and>
      popups (process_loop i gs s) = popups s"
proof (induction gs arbitrary: i s)
  case Nil
  then show ?case by simp
next
  case (Cons g gs)
  let ?s0 = "log_line (LItem i (length (game_queue s)) g) s"
  let ?s1 = "process_single_game g ?s0"
  obtain ls where ls: "log_label ?s1 = log_label ?s0 @ ls" "item_lines ls"
    using process_single_game_frame [of g ?s0] by blast
  have q: "game_queue ?s1 = game_queue s" and p: "popups ?s1 = popups s"
    using process_single_game_frame [of g ?s0] by (simp_all add: log_line_def)
  obtain segs where segs: "length segs = length gs" "list_all item_lines segs"
      "log_label (process_loop (Suc i) gs ?s1) =
         log_label ?s1 @ item_blocks (Suc i) (length (game_queue ?s1)) gs segs"
      "game_queue (process_loop (Suc i) gs ?s1) = game_queue ?s1"
      "popups (process_loop (Suc i) gs ?s1) = popups ?s1"
    using Cons.IH [of "Suc i" ?s1] by blast
  show ?case
  proof (intro exI [of _ "ls # segs"] conjI)
    show "length (ls # segs) = length (g # gs)" using segs(1) by simp
    show "list_all item_lines (ls # segs)" using segs(2) ls(2) by simp
    show "log_label (process_loop i (g # gs) s) =
            log_label s @ item_blocks i (length (game_queue s)) (g # gs) (ls # segs)"
      using segs(3) ls(1) q by (simp add: log_line_def)
    show "game_queue (process_loop i (g # gs) s) = game_queue s" using segs(4) q by simp
    show "popups (process_loop i (g # gs) s) = popups s" using segs(5) p by simp
  qed
qed

text \<open>
  Claim C1. When the run passes validation, the log gains the opening line, then for every
  queue item in turn, numbered 1 to N, its header and its own lines, the last of which is
  the item's result, and then the one completion line; the completion popup counts all N
  items. The result of an item whose processing raised \<open>e\<close> is the line \<open>LError e\<close>,
  written by the handler at the item boundary: the state the handler leaves is the state
  at the exception with that line logged, and the loop goes on from it.
\<close>

theorem process_games_isolates_failures:
  assumes "game_queue s \<noteq> []" and "strip (api_key_input s) \<noteq> []"
    and "console_spinner s \<notin> {''Select Console'', ''No consoles found''}"
  shows "(\<exists>segs. length segs = length (game_queue s) \<and> list_all item_lines segs \<and>
            log_label (process_games s) =
              log_label s @ [LProcessing (length (game_queue s))]
                @ item_blocks 1 (length (game_queue s)) (game_queue s) segs @ [LComplete]) \<and>
         popups (process_games s) =
           popups s @ [(''Complete'',
                        ''Processed '' @ show_nat (length (game_queue s)) @ '' games!'')] \<and>
         (\<forall>g s0 s1 e. process_single_game_try g s0 = (s1, Inl e) \<longrightarrow>
            process_single_game g s0 = log_line (LError e) s1)"
proof -
  let ?n = "length (game_queue s)"
  let ?s1 = "log_line (LProcessing ?n) s"
  have q1: "game_queue ?s1 = game_queue s" by (simp add: log_line_def)
  obtain segs where segs: "length segs = ?n" "list_all item_lines segs"
      "log_label (process_loop 1 (game_queue s) ?s1) =
         log_label ?s1 @ item_blocks 1 ?n (game_queue s) segs"
      "game_queue (process_loop 1 (game_queue s) ?s1) = game_queue s"
      "popups (process_loop 1 (game_queue s) ?s1) = popups s"
    using process_loop_frame [of "game_queue s" 1 ?s1] q1 by (auto simp: log_line_def)
  have pg: "process_games s =
      show_popup ''Complete'' (''Processed '' @ show_nat ?n @ '' games!'')
        (log_line LComplete (process_loop 1 (game_queue s) ?s1))"
    using assms segs(4) by (simp add: process_games_def Let_def q1 log_line_def)
  have a: "log_label (process_games s) =
      log_label s @ [LProcessing ?n] @ item_blocks 1 ?n (game_queue s) segs @ [LComplete]"
    unfolding pg using segs(3) by (simp add: show_popup_def log_line_def)
  have b: "popups (process_games s) =
      popups s @ [(''Complete'', ''Processed '' @ show_nat ?n @ '' games!'')]"
    unfolding pg using segs(5) by (simp add: show_popup_def log_line_def)
  have c: "\<forall>g s0 s1 e. process_single_game_try g s0 = (s1, Inl e) \<longrightarrow>
            process_single_game g s0 = log_line (LError e) s1"
    by (simp add: process_single_game_def)
  from a b c segs(1,2) show ?thesis by blast
qed

text \<open>
  In the concrete installation the first item raises (its record has no name) and the
  second is saved all the same.
\<close>

theorem process_games_isolates_failures_witness:
  "game_queue demo_app \<noteq> [] \<and> strip (api_key_input demo_app) \<noteq> [] \<and>
   console_spinner demo_app \<notin> {''Select Console'', ''No consoles found''} \<and>
   log_label (process_games demo_app) =
     [LProcessing 2,
      LItem 1 2 ''Halo'', LError (KeyError (JStr ''name'')),
      LItem 2 2 ''Zelda'', LFound (JStr ''Zelda II''), LDownloading, LSaved,
      LComplete] \<and>
   (\<exists>segs. length segs = length (game_queue demo_app) \<and> list_all item_lines segs \<and>
      log_label (process_games demo_app) =
        log_label demo_app @ [LProcessing (length (game_queue demo_app))]
          @ item_blocks 1 (length (game_queue demo_app)) (game_queue demo_app) segs
          @ [LComplete]) \<and>
   popups (process_games demo_app) =
     popups demo_app @ [(''Complete'',
        ''Processed '' @ show_nat (length (game_queue demo_app)) @ '' games!'')]"
proof -
  have h1: "game_queue demo_app \<noteq> []" by (simp add: demo_app_def)
  have h2: "strip (api_key_input demo_app) \<noteq> []" by code_simp
  have h3: "console_spinner demo_app \<notin> {''Select Console'', ''No consoles found''}"
    by (simp add: demo_app_def)
  have run: "log_label (process_games demo_app) =
     [LProcessing 2,
      LItem 1 2 ''Halo'', LError (KeyError (JStr ''name'')),
      LItem 2 2 ''Zelda'', LFound (JStr ''Zelda II''), LDownloading, LSaved,
      LComplete]"
    by code_simp
  from process_games_isolates_failures [OF h1 h2 h3] h1 h2 h3 run show ?thesis
    by blast
qed

section \<open>Validation before the run\<close>

lemma search_game_net:
  "search_game g s = (s1, res) \<Longrightarrow> net s1 = net s @ [search_request s g] \<and> api_key_input s1 = api_key_input s"
  by (auto simp: search_game_def requests_get_def)

lemma get_game_icons_net:
  "get_game_icons i s = (s1, res) \<Longrightarrow> (\<exists>r. net s1 = net s @ [r]) \<and> api_key_input s1 = api_key_input s"
  by (auto simp: get_game_icons_def requests_get_def Let_def)

lemma download_image_net:
  "download_image u s = (s1, res) \<Longrightarrow> (\<exists>r. net s1 = net s @ [r]) \<and> api_key_input s1 = api_key_input s"
  by (auto simp: download_image_def requests_get_def Let_def)

lemma apply_overlay_net:
  "apply_overlay b s = (s1, res) \<Longrightarrow> net s1 = net s \<and> api_key_input s1 = api_key_input s"
  by (auto simp: apply_overlay_def apply_overlay_try_def log_line_def Let_def
      split: sum.splits bool.splits prod.splits)

lemma path_mkdir_net:
  "path_mkdir p s = (s1, r) \<Longrightarrow> net s1 = net s \<and> api_key_input s1 = api_key_input s"
  by (auto dest!: path_mkdir_only)

lemma image_save_net:
  "image_save im p s = Inr s1 \<Longrightarrow> net s1 = net s \<and> api_key_input s1 = api_key_input s"
  by (auto dest!: image_save_only)

lemma process_single_game_try_net:
  "process_single_game_try g s = (s1, res) \<Longrightarrow>
     (\<exists>rs. net s1 = net s @ search_request s g # rs) \<and> api_key_input s1 = api_key_input s"
  unfolding process_single_game_try_def
  apply (auto simp: log_line_def Let_def
      split: prod.splits if_splits sum.splits list.splits option.splits
      dest!: search_game_net get_game_icons_net download_image_net apply_overlay_net
             path_mkdir_net image_save_net)
  done

lemma process_single_game_net:
  "(\<exists>rs. net (process_single_game g s) = net s @ search_request s g # rs) \<and>
   api_key_input (process_single_game g s) = api_key_input s"
proof -
  obtain s1 res where t: "process_single_game_try g s = (s1, res)"
    by (cases "process_single_game_try g s")
  from process_single_game_try_net [OF t] t show ?thesis
    by (auto simp: process_single_game_def log_line_def split: sum.splits)
qed

lemma process_loop_net:
  "\<exists>rs. net (process_loop i gs s) = net s @ rs"
proof (induction gs arbitrary: i s)
  case Nil
  then show ?case by simp
next
  case (Cons g gs)
  let ?s0 = "log_line (LItem i (length (game_queue s)) g) s"
  obtain rs where rs: "net (process_single_game g ?s0) = net ?s0 @ search_request ?s0 g # rs"
    using process_single_game_net [of g ?s0] by blast
  obtain rs2 where "net (process_loop (Suc i) gs (process_single_game g ?s0))
      = net (process_single_game g ?s0) @ rs2"
    using Cons.IH by blast
  then show ?case using rs by (simp add: log_line_def)
qed

lemma process_loop_first_request:
  "\<exists>rs. net (process_loop i (g # gs) s) = net s @ search_request s g # rs"
proof -
  let ?s0 = "log_line (LItem i (length (game_queue s)) g) s"
  obtain rs where rs: "net (process_single_game g ?s0) = net ?s0 @ search_request ?s0 g # rs"
    using process_single_game_net [of g ?s0] by blast
  obtain rs2 where "net (process_loop (Suc i) gs (process_single_game g ?s0))
      = net (process_single_game g ?s0) @ rs2"
    using process_loop_net by blast
  then show ?thesis using rs by (simp add: log_line_def search_request_def auth_headers_def)
qed


lemma process_loop_first_header:
  "\<exists>ls. log_label (process_loop i (g # gs) s) = log_label s @ LItem i (length (game_queue s)) g # ls"
proof -
  obtain segs where segs: "length segs = length (g # gs)"
      "log_label (process_loop i (g # gs) s) =
         log_label s @ item_blocks i (length (game_queue s)) (g # gs) segs"
    using process_loop_frame [of "g # gs" i s] by blast
  then obtain l segs' where "segs = l # segs'" by (cases segs) auto
  then show ?thesis using segs(2) by simp
qed

lemma process_loop_nodes_popups:
  "popups (process_loop i gs s) = popups s"
  using process_loop_frame [of gs i s] by blast

text \<open>
  Claim C2. If the queue is empty, or the API key is blank once stripped, or the console is
  one of the two placeholder texts, the run ends at once: one popup is opened, whose title
  and message tell the three cases apart (the first failing check decides), and the list
  of calls of \<^verbatim>\<open>requests.get\<close>, the log and the file system are as before. Otherwise
  processing begins: the log gains the opening line and the header of the first item, the
  first call goes out (the search for the first game), and the popup that ends the run
  is the completion popup.
\<close>

theorem process_games_validation:
  "(game_queue s = [] \<or> strip (api_key_input s) = [] \<or>
    console_spinner s \<in> {''Select Console'', ''No consoles found''} \<longrightarrow>
      net (process_games s) = net s \<and> log_label (process_games s) = log_label s \<and>
      nodes (process_games s) = nodes s \<and>
      popups (process_games s) = popups s @
        [if game_queue s = [] then (''Empty Queue'', ''Please add games first!'')
         else if strip (api_key_input s) = [] then (''No API Key'', ''Please enter API key!'')
         else (''No Console'', ''Please select a console!'')])
   \<and> (\<not> (game_queue s = [] \<or> strip (api_key_input s) = [] \<or>
          console_spinner s \<in> {''Select Console'', ''No consoles found''}) \<longrightarrow>
      (\<exists>ls. log_label (process_games s) =
         log_label s @ LProcessing (length (game_queue s))
           # LItem 1 (length (game_queue s)) (hd (game_queue s)) # ls) \<and>
      (\<exists>rs. net (process_games s) = net s @ search_request s (hd (game_queue s)) # rs) \<and>
      popups (process_games s) = popups s @
        [(''Complete'', ''Processed '' @ show_nat (length (game_queue s)) @ '' games!'')])
   \<and> distinct [(''Empty Queue'', ''Please add games first!''),
                (''No API Key'', ''Please enter API key!''),
                (''No Console'', ''Please select a console!'')]"
proof -
  have a: "game_queue s = [] \<or> strip (api_key_input s) = [] \<or>
    console_spinner s \<in> {''Select Console'', ''No consoles found''} \<longrightarrow>
      net (process_games s) = net s \<and> log_label (process_games s) = log_label s \<and>
      nodes (process_games s) = nodes s \<and>
      popups (process_games s) = popups s @
        [if game_queue s = [] then (''Empty Queue'', ''Please add games first!'')
         else if strip (api_key_input s) = [] then (''No API Key'', ''Please enter API key!'')
         else (''No Console'', ''Please select a console!'')]"
    by (auto simp: process_games_def show_popup_def)
  have b: "\<not> (game_queue s = [] \<or> strip (api_key_input s) = [] \<or>
          console_spinner s \<in> {''Select Console'', ''No consoles found''}) \<longrightarrow>
      (\<exists>ls. log_label (process_games s) =
         log_label s @ LProcessing (length (game_queue s))
           # LItem 1 (length (game_queue s)) (hd (game_queue s)) # ls) \<and>
      (\<exists>rs. net (process_games s) = net s @ search_request s (hd (game_queue s)) # rs) \<and>
      popups (process_games s) = popups s @
        [(''Complete'', ''Processed '' @ show_nat (length (game_queue s)) @ '' games!'')]"
  proof
    assume v: "\<not> (game_queue s = [] \<or> strip (api_key_input s) = [] \<or>
          console_spinner s \<in> {''Select Console'', ''No consoles found''})"
    let ?n = "length (game_queue s)"
    let ?s1 = "log_line (LProcessing ?n) s"
    let ?s2 = "process_loop 1 (game_queue s) ?s1"
    obtain g gs where q: "game_queue s = g # gs" using v by (cases "game_queue s") auto
    have q2: "game_queue ?s2 = game_queue s"
      using process_loop_frame [of "game_queue s" 1 ?s1] by (auto simp: log_line_def)
    have pg: "process_games s =
      show_popup ''Complete'' (''Processed '' @ show_nat ?n @ '' games!'') (log_line LComplete ?s2)"
      using v q2 by (simp add: process_games_def Let_def log_line_def)
    obtain ls where ls: "log_label ?s2 = log_label ?s1 @ LItem 1 (length (game_queue ?s1)) g # ls"
      using process_loop_first_header [of 1 g gs ?s1] q by auto
    obtain rs where rs: "net ?s2 = net ?s1 @ search_request ?s1 g # rs"
      using process_loop_first_request [of 1 g gs ?s1] q by auto
    have l: "log_label (process_games s) =
         log_label s @ LProcessing ?n # LItem 1 ?n (hd (game_queue s)) # (ls @ [LComplete])"
      unfolding pg using ls q by (simp add: show_popup_def log_line_def)
    have n: "net (process_games s) = net s @ search_request s (hd (game_queue s)) # rs"
      unfolding pg using rs q by (simp add: show_popup_def log_line_def search_request_def auth_headers_def)
    have p: "popups (process_games s) = popups s @
        [(''Complete'', ''Processed '' @ show_nat ?n @ '' games!'')]"
      unfolding pg using process_loop_nodes_popups [of 1 "game_queue s" ?s1]
      by (simp add: show_popup_def log_line_def)
    from l n p show "(\<exists>ls. log_label (process_games s) =
         log_label s @ LProcessing (length (game_queue s))
           # LItem 1 (length (game_queue s)) (hd (game_queue s)) # ls) \<and>
      (\<exists>rs. net (process_games s) = net s @ search_request s (hd (game_queue s)) # rs) \<and>
      popups (process_games s) = popups s @
        [(''Complete'', ''Processed '' @ show_nat (length (game_queue s)) @ '' games!'')]"
      by blast
  qed
  have c: "distinct [(''Empty Queue'', ''Please add games first!''),
                (''No API Key'', ''Please enter API key!''),
                (''No Console'', ''Please select a console!'')]"
    by simp
  from a b c show ?thesis by blast
qed


theorem process_games_validation_witness:
  "console_spinner (demo_app\<lparr>console_spinner := ''No consoles found''\<rparr>)
      \<in> {''Select Console'', ''No consoles found''} \<and>
   net (process_games (demo_app\<lparr>console_spinner := ''No consoles found''\<rparr>)) = [] \<and>
   log_label (process_games (demo_app\<lparr>console_spinner := ''No consoles found''\<rparr>)) = [] \<and>
   popups (process_games (demo_app\<lparr>console_spinner := ''No consoles found''\<rparr>))
     = [(''No Console'', ''Please select a console!'')] \<and>
   \<not> (game_queue demo_app = [] \<or> strip (api_key_input demo_app) = [] \<or>
       console_spinner demo_app \<in> {''Select Console'', ''No consoles found''}) \<and>
   (\<exists>rs. net (process_games demo_app) = search_request demo_app ''Halo'' # rs) \<and>
   (\<exists>ls. log_label (process_games demo_app) = LProcessing 2 # LItem 1 2 ''Halo'' # ls)"
proof -
  let ?c = "demo_app\<lparr>console_spinner := ''No consoles found''\<rparr>"
  have k: "strip (api_key_input demo_app) = ''abc''" by code_simp
  have h1: "console_spinner ?c \<in> {''Select Console'', ''No consoles found''}" by simp
  have h2: "\<not> (game_queue demo_app = [] \<or> strip (api_key_input demo_app) = [] \<or>
       console_spinner demo_app \<in> {''Select Console'', ''No consoles found''})"
    unfolding k by (simp add: demo_app_def)
  have e: "game_queue ?c = [''Halo'', ''Zelda'']" "strip (api_key_input ?c) = ''abc''"
      "net ?c = []" "log_label ?c = []" "popups ?c = []"
    using k by (simp_all add: demo_app_def)
  have d: "length (game_queue demo_app) = 2" "hd (game_queue demo_app) = ''Halo''"
      "net demo_app = []" "log_label demo_app = []"
    by (simp_all add: demo_app_def)
  have a: "net (process_games ?c) = [] \<and> log_label (process_games ?c) = [] \<and>
      popups (process_games ?c) = [(''No Console'', ''Please select a console!'')]"
    using process_games_validation [of ?c] h1 e by simp
  from process_games_validation [of demo_app] h2
  have "(\<exists>ls. log_label (process_games demo_app) =
         log_label demo_app @ LProcessing (length (game_queue demo_app))
           # LItem 1 (length (game_queue demo_app)) (hd (game_queue demo_app)) # ls) \<and>
      (\<exists>rs. net (process_games demo_app) =
         net demo_app @ search_request demo_app (hd (game_queue demo_app)) # rs)"
    by blast
  then have b: "(\<exists>rs. net (process_games demo_app) = search_request demo_app ''Halo'' # rs) \<and>
   (\<exists>ls. log_label (process_games demo_app) = LProcessing 2 # LItem 1 2 ''Halo'' # ls)"
    unfolding d by (simp only: append_Nil)
  from a b h1 h2 show ?thesis by blast
qed

section \<open>What the compositor returns\<close>

lemma pil_Inr: "pil s im = Inr r \<longleftrightarrow> pil_fault s im = None \<and> r = im"
  by (auto simp: pil_def split: option.splits)

lemma apply_overlay_try_Some:
  assumes "apply_overlay_try base_image s = (s1, Inr (Some result))"
  shows "\<exists>opened. image_open s (overlay_path_of s) = Inr opened \<and>
         result =
           AlphaComposite
             (PutAlpha base_image
                (RoundedRectangle (NewImage ''L'' (image_size base_image) 0)
                   ((0, 0), image_size base_image) 120 255))
             (if image_size (Convert opened ''RGBA'') \<noteq> image_size base_image
              then Resize (Convert opened ''RGBA'') (image_size base_image) ''LANCZOS''
              else Convert opened ''RGBA'')"
proof -
  from assms obtain opened where o: "image_open s (overlay_path_of s) = Inr opened"
    unfolding apply_overlay_try_def
    by (auto simp: Let_def split: sum.splits bool.splits)
  from assms o show ?thesis
    unfolding apply_overlay_try_def
    by (auto simp: Let_def pil_Inr split: sum.splits bool.splits if_splits)
qed

text \<open>
  Claim C3. Whenever \<^verbatim>\<open>apply_overlay\<close> returns an image, that image is the alpha composite
  of the frame over the masked base: the base with its alpha channel replaced by a mask of
  mode \<^verbatim>\<open>L\<close> and of the base's size, blank (0) but for a rounded rectangle over
  \<open>(0, 0)\<close> to the base's size drawn with radius 120, whatever that size is, and value
  255; the frame is the opened asset in RGBA, resized to the base's size when its size
  differs. The base is never resized, and the result has the base's size. When the asset
  exists and opens and Pillow raises nothing, \<^verbatim>\<open>apply_overlay\<close> does return this image
  and logs nothing.
\<close>

theorem apply_overlay_composite:
  "(snd (apply_overlay base_image s) = Some result \<longrightarrow>
      (\<exists>opened. image_open s (overlay_path_of s) = Inr opened \<and>
         result =
           AlphaComposite
             (PutAlpha base_image
                (RoundedRectangle (NewImage ''L'' (image_size base_image) 0)
                   ((0, 0), image_size base_image) 120 255))
             (if image_size (Convert opened ''RGBA'') \<noteq> image_size base_image
              then Resize (Convert opened ''RGBA'') (image_size base_image) ''LANCZOS''
              else Convert opened ''RGBA'')) \<and>
      image_size result = image_size base_image)
   \<and> (path_exists s (overlay_path_of s) = Inr True \<and>
       image_open s (overlay_path_of s) = Inr frame \<and> (\<forall>im. pil_fault s im = None) \<longrightarrow>
         apply_overlay base_image s =
           (s, Some (AlphaComposite
             (PutAlpha base_image
                (RoundedRectangle (NewImage ''L'' (image_size base_image) 0)
                   ((0, 0), image_size base_image) 120 255))
             (if image_size (Convert frame ''RGBA'') \<noteq> image_size base_image
              then Resize (Convert frame ''RGBA'') (image_size base_image) ''LANCZOS''
              else Convert frame ''RGBA''))))"
proof -
  have a: "snd (apply_overlay base_image s) = Some result \<longrightarrow>
      (\<exists>opened. image_open s (overlay_path_of s) = Inr opened \<and>
         result =
           AlphaComposite
             (PutAlpha base_image
                (RoundedRectangle (NewImage ''L'' (image_size base_image) 0)
                   ((0, 0), image_size base_image) 120 255))
             (if image_size (Convert opened ''RGBA'') \<noteq> image_size base_image
              then Resize (Convert opened ''RGBA'') (image_size base_image) ''LANCZOS''
              else Convert opened ''RGBA'')) \<and>
      image_size result = image_size base_image"
  proof
    assume r: "snd (apply_overlay base_image s) = Some result"
    obtain s1 t where t: "apply_overlay_try base_image s = (s1, t)"
      by (cases "apply_overlay_try base_image s")
    with r have "t = Inr (Some result)"
      by (auto simp: apply_overlay_def split: sum.splits)
    with t have "apply_overlay_try base_image s = (s1, Inr (Some result))" by simp
    from apply_overlay_try_Some [OF this]
    show "(\<exists>opened. image_open s (overlay_path_of s) = Inr opened \<and>
         result =
           AlphaComposite
             (PutAlpha base_image
                (RoundedRectangle (NewImage ''L'' (image_size base_image) 0)
                   ((0, 0), image_size base_image) 120 255))
             (if image_size (Convert opened ''RGBA'') \<noteq> image_size base_image
              then Resize (Convert opened ''RGBA'') (image_size base_image) ''LANCZOS''
              else Convert opened ''RGBA'')) \<and>
      image_size result = image_size base_image"
      by auto
  qed
  have b: "path_exists s (overlay_path_of s) = Inr True \<and>
       image_open s (overlay_path_of s) = Inr frame \<and> (\<forall>im. pil_fault s im = None) \<longrightarrow>
         apply_overlay base_image s =
           (s, Some (AlphaComposite
             (PutAlpha base_image
                (RoundedRectangle (NewImage ''L'' (image_size base_image) 0)
                   ((0, 0), image_size base_image) 120 255))
             (if image_size (Convert frame ''RGBA'') \<noteq> image_size base_image
              then Resize (Convert frame ''RGBA'') (image_size base_image) ''LANCZOS''
              else Convert frame ''RGBA'')))"
    unfolding apply_overlay_def apply_overlay_try_def
    by (simp add: Let_def pil_def)
  from a b show ?thesis by blast
qed

theorem apply_overlay_composite_witness:
  "snd (apply_overlay (Convert (Raster 1 ''RGB'' (1024, 1024)) ''RGBA'') demo_app)
     = Some (AlphaComposite
        (PutAlpha (Convert (Raster 1 ''RGB'' (1024, 1024)) ''RGBA'')
           (RoundedRectangle (NewImage ''L'' (1024, 1024) 0) ((0, 0), (1024, 1024)) 120 255))
        (Resize (Convert (Raster 2 ''RGBA'' (512, 512)) ''RGBA'') (1024, 1024) ''LANCZOS''))
   \<and> path_exists demo_app (overlay_path_of demo_app) = Inr True
   \<and> image_open demo_app (overlay_path_of demo_app) = Inr (Raster 2 ''RGBA'' (512, 512))
   \<and> (\<forall>im. pil_fault demo_app im = None)
   \<and> image_size (AlphaComposite
        (PutAlpha (Convert (Raster 1 ''RGB'' (1024, 1024)) ''RGBA'')
           (RoundedRectangle (NewImage ''L'' (1024, 1024) 0) ((0, 0), (1024, 1024)) 120 255))
        (Resize (Convert (Raster 2 ''RGBA'' (512, 512)) ''RGBA'') (1024, 1024) ''LANCZOS''))
       = image_size (Convert (Raster 1 ''RGB'' (1024, 1024)) ''RGBA'')"
proof -
  let ?base = "Convert (Raster 1 ''RGB'' (1024, 1024)) ''RGBA''"
  let ?frame = "Raster 2 ''RGBA'' (512, 512)"
  let ?result = "AlphaComposite
        (PutAlpha ?base
           (RoundedRectangle (NewImage ''L'' (1024, 1024) 0) ((0, 0), (1024, 1024)) 120 255))
        (Resize (Convert ?frame ''RGBA'') (1024, 1024) ''LANCZOS'')"
  have h1: "path_exists demo_app (overlay_path_of demo_app) = Inr True" by code_simp
  have h2: "image_open demo_app (overlay_path_of demo_app) = Inr ?frame" by code_simp
  have h3: "\<forall>im. pil_fault demo_app im = None" by (simp add: demo_app_def)
  note t = apply_overlay_composite [of ?base demo_app ?result ?frame]
  from t h1 h2 h3 have r: "apply_overlay ?base demo_app = (demo_app, Some ?result)"
    by simp
  then have r2: "snd (apply_overlay ?base demo_app) = Some ?result" by simp
  with t have "image_size ?result = image_size ?base" by blast
  with r2 h1 h2 h3 show ?thesis by blast
qed

section \<open>The icon catalogue keeps the 1024 by 1024 candidates\<close>

lemma icons_1024_objects:
  "\<forall>g\<in>set gs. \<exists>d. g = JDict d \<Longrightarrow> icons_1024 gs = Inr (filter square_1024 gs)"
  by (induction gs) (auto simp: square_1024_def)

lemma icons_1024_sound:
  "icons_1024 gs = Inr r \<Longrightarrow> \<forall>g\<in>set r. square_1024 g"
proof (induction gs arbitrary: r)
  case Nil
  then show ?case by simp
next
  case (Cons g gs)
  then show ?case
    by (cases g) (auto simp: square_1024_def split: sum.splits if_splits)
qed

lemma get_game_icons_snd:
  "snd (get_game_icons game_id s) =
     (case get_game_icons_try (http s (length (net s)) (icons_request s game_id)) of
        Inl e \<Rightarrow> [] | Inr icons \<Rightarrow> icons)"
  by (simp add: get_game_icons_def requests_get_def)

text \<open>
  Claim C4. Every candidate that \<^verbatim>\<open>get_game_icons\<close> returns has width 1024 and height
  1024, whatever the service answered. When the service answers with a list of candidate
  records, the result is that list filtered to the candidates of width 1024 and height
  1024: exactly those, in the order of the answer.
\<close>

theorem get_game_icons_filters_1024:
  "(\<forall>g\<in>set (snd (get_game_icons game_id s)). square_1024 g)
   \<and> (http s (length (net s)) (icons_request s game_id) = Inr response \<and>
       \<not> (400 \<le> status_code response \<and> status_code response < 600) \<and>
       resp_json response = Some (JDict body) \<and>
       map_of body ''data'' = Some (JList candidates) \<and>
       (\<forall>g\<in>set candidates. \<exists>d. g = JDict d) \<longrightarrow>
         snd (get_game_icons game_id s) = filter square_1024 candidates)"
proof -
  have a: "\<forall>g\<in>set (snd (get_game_icons game_id s)). square_1024 g"
    unfolding get_game_icons_snd get_game_icons_try_def
    by (auto split: sum.splits dest: icons_1024_sound icons_1024_sound [OF sym])
  have b: "http s (length (net s)) (icons_request s game_id) = Inr response \<and>
       \<not> (400 \<le> status_code response \<and> status_code response < 600) \<and>
       resp_json response = Some (JDict body) \<and>
       map_of body ''data'' = Some (JList candidates) \<and>
       (\<forall>g\<in>set candidates. \<exists>d. g = JDict d) \<longrightarrow>
         snd (get_game_icons game_id s) = filter square_1024 candidates"
    unfolding get_game_icons_snd get_game_icons_try_def
    by (auto simp: raise_for_status_def response_json_def py_get_default_def icons_1024_objects)
  from a b show ?thesis by blast
qed

theorem get_game_icons_filters_1024_witness:
  "http demo_app (length (net demo_app)) (icons_request demo_app (JInt 2))
     = Inr (demo_reply (JDict [(''data'', JList demo_grids)]))
   \<and> \<not> (400 \<le> status_code (demo_reply (JDict [(''data'', JList demo_grids)]))
        \<and> status_code (demo_reply (JDict [(''data'', JList demo_grids)])) < 600)
   \<and> resp_json (demo_reply (JDict [(''data'', JList demo_grids)]))
        = Some (JDict [(''data'', JList demo_grids)])
   \<and> map_of [(''data'', JList demo_grids)] ''data'' = Some (JList demo_grids)
   \<and> demo_grids =
       [JDict [(''url'', JStr ''https://cdn/a.png''), (''width'', JInt 512), (''height'', JInt 512)],
        JDict [(''url'', JStr ''https://cdn/b.png''), (''width'', JInt 1024), (''height'', JInt 1024)],
        JDict [(''url'', JStr ''https://cdn/c.png''), (''width'', JInt 1024), (''height'', JInt 768)],
        JDict [(''url'', JStr ''https://cdn/d.png''), (''width'', JInt 1024), (''height'', JInt 1024)]]
   \<and> snd (get_game_icons (JInt 2) demo_app) = filter square_1024 demo_grids
   \<and> filter square_1024 demo_grids =
       [JDict [(''url'', JStr ''https://cdn/b.png''), (''width'', JInt 1024), (''height'', JInt 1024)],
        JDict [(''url'', JStr ''https://cdn/d.png''), (''width'', JInt 1024), (''height'', JInt 1024)]]"
proof -
  let ?r = "demo_reply (JDict [(''data'', JList demo_grids)])"
  have h1: "http demo_app (length (net demo_app)) (icons_request demo_app (JInt 2)) = Inr ?r"
    by code_simp
  have h2: "\<not> (400 \<le> status_code ?r \<and> status_code ?r < 600)" by (simp add: demo_reply_def)
  have h3: "resp_json ?r = Some (JDict [(''data'', JList demo_grids)])" by (simp add: demo_reply_def)
  have h4: "map_of [(''data'', JList demo_grids)] ''data'' = Some (JList demo_grids)" by simp
  have h5: "\<forall>g\<in>set demo_grids. \<exists>d. g = JDict d" by (simp add: demo_grids_def)
  have f: "filter square_1024 demo_grids =
       [JDict [(''url'', JStr ''https://cdn/b.png''), (''width'', JInt 1024), (''height'', JInt 1024)],
        JDict [(''url'', JStr ''https://cdn/d.png''), (''width'', JInt 1024), (''height'', JInt 1024)]]"
    by code_simp
  from get_game_icons_filters_1024 [of "JInt 2" demo_app ?r "[(''data'', JList demo_grids)]" demo_grids]
    h1 h2 h3 h4 h5
  have "snd (get_game_icons (JInt 2) demo_app) = filter square_1024 demo_grids" by blast
  with h1 h2 h3 h4 f show ?thesis by (simp add: demo_grids_def)
qed

section \<open>Failures of the two lookups\<close>

lemma search_game_snd:
  "snd (search_game name s) =
     (case search_game_try (http s (length (net s)) (search_request s name)) of
        Inl e \<Rightarrow> JList [] | Inr v \<Rightarrow> v)"
  by (simp add: search_game_def requests_get_def)

lemma failed_search_try: "failed_response out \<Longrightarrow> \<exists>e. search_game_try out = Inl e"
  by (auto simp: failed_response_def search_game_try_def raise_for_status_def response_json_def
      py_get_default_def split: sum.splits option.splits json.splits)

lemma failed_icons_try: "failed_response out \<Longrightarrow> \<exists>e. get_game_icons_try out = Inl e"
  by (auto simp: failed_response_def get_game_icons_try_def raise_for_status_def response_json_def
      py_get_default_def split: sum.splits option.splits json.splits)

lemma icons_1024_non_object:
  "\<exists>g\<in>set gs. \<forall>d. g \<noteq> JDict d \<Longrightarrow> \<exists>e. icons_1024 gs = Inl e"
proof (induction gs)
  case Nil
  then show ?case by simp
next
  case (Cons g gs)
  show ?case
  proof (cases "\<exists>d. g = JDict d")
    case True
    with Cons.prems have "\<exists>g\<in>set gs. \<forall>d. g \<noteq> JDict d" by auto
    from Cons.IH [OF this] True show ?thesis by (auto split: sum.splits)
  next
    case False
    then show ?thesis by (cases g) auto
  qed
qed

lemma icons_non_list:
  "\<forall>gs. v \<noteq> JList gs \<Longrightarrow>
   (case py_iter v of Inl e \<Rightarrow> Inl e | Inr gs \<Rightarrow> icons_1024 gs) = Inr [] \<or>
   (\<exists>e. (case py_iter v of Inl e \<Rightarrow> Inl e | Inr gs \<Rightarrow> icons_1024 gs) = Inl e)"
proof (cases v)
  case (JStr x)
  then show ?thesis by (cases x) auto
next
  case (JDict d)
  then show ?thesis by (cases "rev (remdups (rev (map fst d)))") auto
qed auto

text \<open>
  Claim C5 as stated fails for a payload whose \<^verbatim>\<open>data\<close> member is not a list: the search
  returns the member as it is. Here it is the number 5, and the caller, which answers an
  empty result with "Not found", raises on it and logs an error.
\<close>

theorem lookups_swallow_failures_counterexample:
  "http demo_app (length (net demo_app)) (search_request demo_app ''Myst'')
     = Inr \<lparr>status_code = 200, resp_json = Some (JDict [(''data'', JInt 5)]), resp_content = []\<rparr>
   \<and> snd (search_game ''Myst'' demo_app) = JInt 5
   \<and> snd (search_game ''Myst'' demo_app) \<noteq> JList []
   \<and> log_label (process_single_game ''Myst'' demo_app) = [LError TypeError]
   \<and> snd (search_game ''Pong'' demo_app) = JList []
   \<and> log_label (process_single_game ''Pong'' demo_app) = [LNotFound]"
  by code_simp

text \<open>
  Claim C5, amended. Neither lookup has an exceptional result. A call that fails in
  transport, or comes back with a status of the 400s or 500s, a body that is not JSON or
  JSON that is not an object, gives the empty list from both. Given a JSON object, the
  search returns its \<^verbatim>\<open>data\<close> member as it is, and the empty list when there is none; the
  icon listing gives the empty list also when there is no \<^verbatim>\<open>data\<close>, when \<^verbatim>\<open>data\<close> is
  not a list, and when an element of the list is not an object.
\<close>

theorem lookups_swallow_failures:
  "(failed_response (http s (length (net s)) (search_request s name)) \<longrightarrow>
      snd (search_game name s) = JList [])
   \<and> (failed_response (http s (length (net s)) (icons_request s game_id)) \<longrightarrow>
      snd (get_game_icons game_id s) = [])
   \<and> (http s (length (net s)) (search_request s name) = Inr r \<and>
       \<not> (400 \<le> status_code r \<and> status_code r < 600) \<and> resp_json r = Some (JDict d) \<longrightarrow>
      snd (search_game name s) = (case map_of d ''data'' of None \<Rightarrow> JList [] | Some v \<Rightarrow> v))
   \<and> (http s (length (net s)) (icons_request s game_id) = Inr r \<and>
       \<not> (400 \<le> status_code r \<and> status_code r < 600) \<and> resp_json r = Some (JDict d) \<and>
       (map_of d ''data'' = None \<or>
        (\<exists>v. map_of d ''data'' = Some v \<and> (\<forall>gs. v \<noteq> JList gs)) \<or>
        (\<exists>gs. map_of d ''data'' = Some (JList gs) \<and> (\<exists>g\<in>set gs. \<forall>d. g \<noteq> JDict d))) \<longrightarrow>
      snd (get_game_icons game_id s) = [])"
proof -
  have a: "failed_response (http s (length (net s)) (search_request s name)) \<longrightarrow>
      snd (search_game name s) = JList []"
    unfolding search_game_snd by (auto dest!: failed_search_try)
  have b: "failed_response (http s (length (net s)) (icons_request s game_id)) \<longrightarrow>
      snd (get_game_icons game_id s) = []"
    unfolding get_game_icons_snd by (auto dest!: failed_icons_try)
  have c: "http s (length (net s)) (search_request s name) = Inr r \<and>
       \<not> (400 \<le> status_code r \<and> status_code r < 600) \<and> resp_json r = Some (JDict d) \<longrightarrow>
      snd (search_game name s) = (case map_of d ''data'' of None \<Rightarrow> JList [] | Some v \<Rightarrow> v)"
    unfolding search_game_snd
    by (auto simp: search_game_try_def raise_for_status_def response_json_def py_get_default_def
        split: option.splits)
  have d: "http s (length (net s)) (icons_request s game_id) = Inr r \<and>
       \<not> (400 \<le> status_code r \<and> status_code r < 600) \<and> resp_json r = Some (JDict d) \<and>
       (map_of d ''data'' = None \<or>
        (\<exists>v. map_of d ''data'' = Some v \<and> (\<forall>gs. v \<noteq> JList gs)) \<or>
        (\<exists>gs. map_of d ''data'' = Some (JList gs) \<and> (\<exists>g\<in>set gs. \<forall>d. g \<noteq> JDict d))) \<longrightarrow>
      snd (get_game_icons game_id s) = []"
  proof -
    {
      assume h: "http s (length (net s)) (icons_request s game_id) = Inr r"
         "\<not> (400 \<le> status_code r \<and> status_code r < 600)" "resp_json r = Some (JDict d)"
      have d1: "map_of d ''data'' = None \<Longrightarrow> snd (get_game_icons game_id s) = []"
        using h unfolding get_game_icons_snd
        by (simp add: get_game_icons_try_def raise_for_status_def response_json_def
            py_get_default_def)
      have d2: "snd (get_game_icons game_id s) = []"
        if v: "map_of d ''data'' = Some v" "\<forall>gs. v \<noteq> JList gs" for v
        using icons_non_list [OF v(2)] h v(1) unfolding get_game_icons_snd
        by (auto simp: get_game_icons_try_def raise_for_status_def response_json_def
            py_get_default_def)
      have d3: "snd (get_game_icons game_id s) = []"
        if g: "map_of d ''data'' = Some (JList gs)" "\<exists>g\<in>set gs. \<forall>d. g \<noteq> JDict d" for gs
        using icons_1024_non_object [OF g(2)] h g(1) unfolding get_game_icons_snd
        by (auto simp: get_game_icons_try_def raise_for_status_def response_json_def
            py_get_default_def)
      note d1 d2 d3
    }
    then show ?thesis by blast
  qed
  from a b c d show ?thesis by blast
qed

theorem lookups_swallow_failures_witness:
  "failed_response (http demo_app (length (net demo_app)) (search_request demo_app ''Quake''))
   \<and> snd (search_game ''Quake'' demo_app) = JList []
   \<and> failed_response (http demo_app (length (net demo_app)) (icons_request demo_app (JInt 1)))
   \<and> snd (get_game_icons (JInt 1) demo_app) = []
   \<and> http demo_app (length (net demo_app)) (search_request demo_app ''Myst'')
        = Inr (demo_reply (JDict [(''data'', JInt 5)]))
   \<and> snd (search_game ''Myst'' demo_app) = JInt 5
   \<and> http demo_app (length (net demo_app)) (icons_request demo_app (JInt 3))
        = Inr (demo_reply (JDict [(''data'', JList (demo_grids @ [JStr ''junk'']))]))
   \<and> snd (get_game_icons (JInt 3) demo_app) = []"
proof -
  let ?r5 = "demo_reply (JDict [(''data'', JInt 5)])"
  let ?r3 = "demo_reply (JDict [(''data'', JList (demo_grids @ [JStr ''junk'']))])"
  have h1: "failed_response (http demo_app (length (net demo_app)) (search_request demo_app ''Quake''))"
    by code_simp
  have h2: "failed_response (http demo_app (length (net demo_app)) (icons_request demo_app (JInt 1)))"
    by code_simp
  have h3: "http demo_app (length (net demo_app)) (search_request demo_app ''Myst'') = Inr ?r5"
    by code_simp
  have h4: "\<not> (400 \<le> status_code ?r5 \<and> status_code ?r5 < 600)"
      "resp_json ?r5 = Some (JDict [(''data'', JInt 5)])"
    by (simp_all add: demo_reply_def)
  have h5: "http demo_app (length (net demo_app)) (icons_request demo_app (JInt 3)) = Inr ?r3"
    by code_simp
  have h6: "\<not> (400 \<le> status_code ?r3 \<and> status_code ?r3 < 600)"
      "resp_json ?r3 = Some (JDict [(''data'', JList (demo_grids @ [JStr ''junk'']))])"
    by (simp_all add: demo_reply_def)
  have h7: "map_of [(''data'', JList (demo_grids @ [JStr ''junk'']))] ''data''
              = Some (JList (demo_grids @ [JStr ''junk'']))"
      "\<exists>g\<in>set (demo_grids @ [JStr ''junk'']). \<forall>d. g \<noteq> JDict d"
    by simp_all
  have a: "snd (search_game ''Quake'' demo_app) = JList []"
    using lookups_swallow_failures [of demo_app "''Quake''" "JInt 1"] h1 by blast
  have b: "snd (get_game_icons (JInt 1) demo_app) = []"
    using lookups_swallow_failures [of demo_app "''Quake''" "JInt 1"] h2 by blast
  have "snd (search_game ''Myst'' demo_app) =
          (case map_of [(''data'', JInt 5)] ''data'' of None \<Rightarrow> JList [] | Some v \<Rightarrow> v)"
    using lookups_swallow_failures [of demo_app "''Myst''" "JInt 1" ?r5 "[(''data'', JInt 5)]"]
      h3 h4 by blast
  then have c: "snd (search_game ''Myst'' demo_app) = JInt 5" by simp
  have d: "snd (get_game_icons (JInt 3) demo_app) = []"
    using lookups_swallow_failures [of demo_app "''Myst''" "JInt 3" ?r3
        "[(''data'', JList (demo_grids @ [JStr ''junk'']))]"] h5 h6 h7 by blast
  from a b c d h1 h2 h3 h5 show ?thesis by blast
qed

section \<open>The output file\<close>

lemma split_on_not_Nil: "split_on c xs \<noteq> []"
  by (induction xs) (auto split: list.splits)

lemma split_on_no_sep: "c \<notin> set xs \<Longrightarrow> split_on c xs = [xs]"
  by (induction xs) auto
lemma Path_plain: "plain_component n \<Longrightarrow> Path n = ('''', [n])"
proof -
  assume p: "plain_component n"
  then obtain c cs where n: "n = c # cs" "c \<noteq> CHR ''/''"
    by (cases n) (auto simp: plain_component_def)
  then have "path_anchor n = ''''" by (simp add: path_anchor_def)
  moreover have "split_on CHR ''/'' n = [n]"
    using p by (simp add: plain_component_def split_on_no_sep)
  ultimately show ?thesis using p by (simp add: Path_def plain_component_def)
qed

lemma plain_png: "CHR ''/'' \<notin> set nm \<Longrightarrow> plain_component (nm @ ''.png'')"
proof -
  assume "CHR ''/'' \<notin> set nm"
  moreover have "length (nm @ ''.png'') \<noteq> length ''.''" by simp
  then have "nm @ ''.png'' \<noteq> ''.''" by metis
  moreover have "length (nm @ ''.png'') \<noteq> length ''..''" by simp
  then have "nm @ ''.png'' \<noteq> ''..''" by metis
  ultimately show ?thesis by (simp add: plain_component_def)
qed

lemma output_path_plain:
  "plain_component (console_spinner s) \<Longrightarrow> CHR ''/'' \<notin> set (format_value (py_str s) name) \<Longrightarrow>
   output_path_of s name =
     (fst (DEFAULT_OUTPUT s),
      snd (DEFAULT_OUTPUT s) @ [console_spinner s, format_value (py_str s) name @ ''.png''])"
  by (simp add: output_path_of_def output_dir_of_def path_join_def Path_plain plain_png)

lemma search_game_env:
  "search_game g s = (s1, res) \<Longrightarrow>
     nodes s1 = nodes s \<and> cwd s1 = cwd s \<and> DEFAULT_OUTPUT s1 = DEFAULT_OUTPUT s \<and>
     console_spinner s1 = console_spinner s \<and> py_str s1 = py_str s"
  by (auto simp: search_game_def requests_get_def)

lemma get_game_icons_env:
  "get_game_icons i s = (s1, res) \<Longrightarrow>
     nodes s1 = nodes s \<and> cwd s1 = cwd s \<and> DEFAULT_OUTPUT s1 = DEFAULT_OUTPUT s \<and>
     console_spinner s1 = console_spinner s \<and> py_str s1 = py_str s"
  by (auto simp: get_game_icons_def requests_get_def)

lemma download_image_env:
  "download_image u s = (s1, res) \<Longrightarrow>
     nodes s1 = nodes s \<and> cwd s1 = cwd s \<and> DEFAULT_OUTPUT s1 = DEFAULT_OUTPUT s \<and>
     console_spinner s1 = console_spinner s \<and> py_str s1 = py_str s"
  by (auto simp: download_image_def requests_get_def)

lemma apply_overlay_env:
  "apply_overlay b s = (s1, res) \<Longrightarrow>
     nodes s1 = nodes s \<and> cwd s1 = cwd s \<and> DEFAULT_OUTPUT s1 = DEFAULT_OUTPUT s \<and>
     console_spinner s1 = console_spinner s \<and> py_str s1 = py_str s"
  by (auto simp: apply_overlay_def apply_overlay_try_def log_line_def Let_def
      split: sum.splits bool.splits prod.splits)

lemma path_mkdir_env:
  "path_mkdir p s = (s1, r) \<Longrightarrow>
     cwd s1 = cwd s \<and> DEFAULT_OUTPUT s1 = DEFAULT_OUTPUT s \<and>
     console_spinner s1 = console_spinner s \<and> py_str s1 = py_str s"
  by (auto dest!: path_mkdir_only)

text \<open>Resolution is not disturbed when every directory stays a directory.\<close>

lemma walk_mono:
  assumes "\<And>k. node_at f k = Some Dir \<Longrightarrow> node_at g k = Some Dir"
  shows "walk f a cur cs = Inr q \<Longrightarrow> walk g a cur cs = Inr q"
proof (induction cs arbitrary: cur)
  case Nil
  then show ?case by simp
next
  case (Cons c cs)
  from Cons.prems have d: "node_at f (a, cur) = Some Dir"
    by (auto split: option.splits node.splits)
  then have "node_at g (a, cur) = Some Dir" by (rule assms)
  then show ?case using Cons d by simp
qed

lemma locate_mono:
  assumes "\<And>k. node_at (nodes s) k = Some Dir \<Longrightarrow> node_at (nodes t) k = Some Dir"
    and "cwd t = cwd s"
  shows "locate s p = Inr q \<Longrightarrow> locate t p = Inr q"
  using walk_mono [of "nodes s" "nodes t", OF assms(1)] assms(2)
  by (auto simp: locate_def split: if_splits)

lemma fs_is_dir_mono:
  assumes "\<And>k. node_at (nodes s) k = Some Dir \<Longrightarrow> node_at (nodes t) k = Some Dir"
    and "cwd t = cwd s"
  shows "fs_is_dir s p \<Longrightarrow> fs_is_dir t p"
proof -
  assume "fs_is_dir s p"
  then obtain q where q: "locate s p = Inr q" "node_at (nodes s) q = Some Dir"
    by (auto simp: fs_is_dir_def split: sum.splits)
  from locate_mono [OF assms q(1)] assms(1) [OF q(2)] show ?thesis
    by (simp add: fs_is_dir_def)
qed

lemma os_mkdir_Inr:
  "os_mkdir p s = Inr s1 \<Longrightarrow>
     \<exists>q. locate s p = Inr q \<and> snd q \<noteq> [] \<and> nodes s q = None \<and>
         nodes s1 = (nodes s)(q \<mapsto> Dir) \<and> cwd s1 = cwd s"
  by (auto simp: os_mkdir_def put_node_def node_at_def split: option.splits sum.splits if_splits)

lemma trail_not_Nil: "trail cur cs \<noteq> []"
  by (cases cs) auto

lemma walk_last_trail: "walk fs a cur cs = Inr q \<Longrightarrow> q = (a, last (trail cur cs))"
  by (induction cs arbitrary: cur) (auto simp: trail_not_Nil split: option.splits node.splits)

lemma locate_in_places: "locate s p = Inr q \<Longrightarrow> q \<in> set (places s p)"
proof -
  assume l: "locate s p = Inr q"
  have m: "\<And>a cs. (a, last (trail [] cs)) \<in> Pair a ` set (trail [] cs)"
    using trail_not_Nil by simp
  show ?thesis
  proof (cases "fst p = []")
    case True
    then have "q = (''/'', last (trail [] (cwd s @ snd p)))"
      using l walk_last_trail by (simp add: locate_def)
    then show ?thesis using True m by (simp add: places_def)
  next
    case False
    then have "q = (fst p, last (trail [] (snd p)))"
      using l walk_last_trail by (simp add: locate_def)
    then show ?thesis using False m by (simp add: places_def)
  qed
qed

lemma trail_butlast: "set (trail cur (butlast cs)) \<subseteq> set (trail cur cs)"
  by (induction cs arbitrary: cur) auto

lemma places_parent: "snd p \<noteq> [] \<Longrightarrow> set (places s (path_parent p)) \<subseteq> set (places s p)"
  using trail_butlast [of "[]" "cwd s @ snd p"] trail_butlast [of "[]" "snd p"]
  by (auto simp: places_def path_parent_def butlast_append)

lemma os_mkdir_grows:
  "os_mkdir p s = Inr s1 \<Longrightarrow>
     cwd s1 = cwd s \<and>
     (\<forall>k. nodes s1 k = nodes s k \<or>
          (nodes s k = None \<and> nodes s1 k = Some Dir \<and> k \<in> set (places s p)))"
proof -
  assume "os_mkdir p s = Inr s1"
  from os_mkdir_Inr [OF this] obtain q where q: "locate s p = Inr q" "nodes s q = None"
    "nodes s1 = (nodes s)(q \<mapsto> Dir)" "cwd s1 = cwd s"
    by blast
  from locate_in_places [OF q(1)] q(2,3,4) show ?thesis by simp
qed

lemma os_mkdir_is_dir: "os_mkdir p s = Inr s1 \<Longrightarrow> fs_is_dir s1 p"
proof -
  assume "os_mkdir p s = Inr s1"
  from os_mkdir_Inr [OF this] obtain q where q: "locate s p = Inr q" "snd q \<noteq> []"
    "nodes s q = None" "nodes s1 = (nodes s)(q \<mapsto> Dir)" "cwd s1 = cwd s"
    by blast
  have keep: "\<And>k. node_at (nodes s) k = Some Dir \<Longrightarrow> node_at (nodes s1) k = Some Dir"
    using q(3,4) by (auto simp: node_at_def)
  from locate_mono [OF keep q(5) q(1)] have "locate s1 p = Inr q" .
  then show ?thesis using q(4) by (simp add: fs_is_dir_def node_at_def)
qed

lemma places_cwd: "cwd t = cwd s \<Longrightarrow> places t p = places s p"
  by (simp add: places_def)

lemma path_mkdir_grows:
  "path_mkdir p s = (s1, r) \<Longrightarrow>
     cwd s1 = cwd s \<and>
     (\<forall>k. nodes s1 k = nodes s k \<or>
          (nodes s k = None \<and> nodes s1 k = Some Dir \<and> k \<in> set (places s p)))"
proof (rule path_mkdir_steps [where P = "\<lambda>p a b. cwd b = cwd a \<and>
          (\<forall>k. nodes b k = nodes a k \<or>
               (nodes a k = None \<and> nodes b k = Some Dir \<and> k \<in> set (places a p)))"])
  fix p and a :: app
  show "cwd a = cwd a \<and>
        (\<forall>k. nodes a k = nodes a k \<or>
             (nodes a k = None \<and> nodes a k = Some Dir \<and> k \<in> set (places a p)))"
    by simp
next
  fix p and a b c :: app
  assume ab: "cwd b = cwd a \<and>
        (\<forall>k. nodes b k = nodes a k \<or>
             (nodes a k = None \<and> nodes b k = Some Dir \<and> k \<in> set (places a p)))"
    and bc: "cwd c = cwd b \<and>
        (\<forall>k. nodes c k = nodes b k \<or>
             (nodes b k = None \<and> nodes c k = Some Dir \<and> k \<in> set (places b p)))"
  have pl: "places b p = places a p" using ab by (intro places_cwd) simp
  have "nodes c k = nodes a k \<or>
        (nodes a k = None \<and> nodes c k = Some Dir \<and> k \<in> set (places a p))" for k
  proof -
    from ab have 1: "nodes b k = nodes a k \<or>
        (nodes a k = None \<and> nodes b k = Some Dir \<and> k \<in> set (places a p))"
      by blast
    from bc have 2: "nodes c k = nodes b k \<or>
        (nodes b k = None \<and> nodes c k = Some Dir \<and> k \<in> set (places a p))"
      unfolding pl by blast
    from 1 2 show ?thesis by auto
  qed
  then show "cwd c = cwd a \<and>
        (\<forall>k. nodes c k = nodes a k \<or>
             (nodes a k = None \<and> nodes c k = Some Dir \<and> k \<in> set (places a p)))"
    using ab bc by simp
next
  fix p a b
  assume "os_mkdir p a = Inr b"
  then show "cwd b = cwd a \<and>
        (\<forall>k. nodes b k = nodes a k \<or>
             (nodes a k = None \<and> nodes b k = Some Dir \<and> k \<in> set (places a p)))"
    by (rule os_mkdir_grows)
next
  fix p and a b :: app
  assume np: "snd p \<noteq> []" and ab: "cwd b = cwd a \<and>
        (\<forall>k. nodes b k = nodes a k \<or>
             (nodes a k = None \<and> nodes b k = Some Dir \<and> k \<in> set (places a (path_parent p))))"
  have "nodes b k = nodes a k \<or>
        (nodes a k = None \<and> nodes b k = Some Dir \<and> k \<in> set (places a p))" for k
  proof -
    from ab have "nodes b k = nodes a k \<or>
        (nodes a k = None \<and> nodes b k = Some Dir \<and> k \<in> set (places a (path_parent p)))"
      by blast
    then show ?thesis using places_parent [OF np, of a] by auto
  qed
  then show "cwd b = cwd a \<and>
        (\<forall>k. nodes b k = nodes a k \<or>
             (nodes a k = None \<and> nodes b k = Some Dir \<and> k \<in> set (places a p)))"
    using ab by simp
qed

lemma mkdir_exist_ok_is_dir: "mkdir_exist_ok e p s = Inr u \<Longrightarrow> fs_is_dir s p"
  by (auto simp: mkdir_exist_ok_def path_is_dir_def
      split: exn.splits sum.splits option.splits if_splits)

lemma path_mkdir_is_dir: "path_mkdir p s = (s1, Inr u) \<Longrightarrow> fs_is_dir s1 p"
  by (subst (asm) path_mkdir.simps)
     (auto split: sum.splits if_splits prod.splits
        dest: os_mkdir_is_dir mkdir_exist_ok_is_dir)

lemma image_save_Inr:
  "image_save im p s = Inr s1 \<Longrightarrow>
     \<exists>q. locate s p = Inr q \<and> node_at (nodes s) q \<noteq> Some Dir \<and>
         nodes s1 = (nodes s)(q \<mapsto> File (PngOf im)) \<and> cwd s1 = cwd s"
  by (auto simp: image_save_def put_node_def split: option.splits sum.splits if_splits)

text \<open>What a successful \<^verbatim>\<open>mkdir\<close> followed by a successful \<^verbatim>\<open>save\<close> leaves.\<close>

lemma mkdir_then_save:
  assumes m: "path_mkdir d s = (s7, Inr u)"
    and w: "image_save im p s7 = Inr s8"
  shows "\<exists>q. locate s8 p = Inr q \<and> nodes s8 q = Some (File (PngOf im)) \<and> fs_is_dir s8 d \<and>
             (\<forall>k. k \<noteq> q \<longrightarrow> nodes s8 k = nodes s k \<or>
                  (nodes s k = None \<and> nodes s8 k = Some Dir \<and> k \<in> set (places s d)))"
proof -
  from image_save_Inr [OF w] obtain q where q: "locate s7 p = Inr q"
    "node_at (nodes s7) q \<noteq> Some Dir" "nodes s8 = (nodes s7)(q \<mapsto> File (PngOf im))"
    "cwd s8 = cwd s7"
    by blast
  have keep: "\<And>k. node_at (nodes s7) k = Some Dir \<Longrightarrow> node_at (nodes s8) k = Some Dir"
    using q(2,3) by (auto simp: node_at_def split: if_splits)
  have a: "locate s8 p = Inr q" using locate_mono [OF keep q(4) q(1)] .
  have b: "nodes s8 q = Some (File (PngOf im))" using q(3) by simp
  have c: "fs_is_dir s8 d" using fs_is_dir_mono [OF keep q(4) path_mkdir_is_dir [OF m]] .
  have d: "\<forall>k. k \<noteq> q \<longrightarrow> nodes s8 k = nodes s k \<or>
              (nodes s k = None \<and> nodes s8 k = Some Dir \<and> k \<in> set (places s d))"
    using path_mkdir_grows [OF m] q(3) by auto
  from a b c d show ?thesis by blast
qed

lemma saved_item_steps:
  assumes "process_single_game_try g s = (s', Inr ())" and "last (log_label s') = LSaved"
  shows "\<exists>s1 results game name game_id s3 icon others url s5 img s6 result s7 s8.
           search_game g s = (s1, results) \<and>
           py_getitem0 results = Inr game \<and>
           py_getitem game ''name'' = Inr name \<and>
           py_getitem game ''id'' = Inr game_id \<and>
           get_game_icons game_id (log_line (LFound name) s1) = (s3, icon # others) \<and>
           py_getitem icon ''url'' = Inr url \<and>
           download_image url (log_line LDownloading s3) = (s5, Some img) \<and>
           apply_overlay img s5 = (s6, Some result) \<and>
           path_mkdir (output_dir_of s6) s6 = (s7, Inr ()) \<and>
           image_save result (output_path_of s7 name) s7 = Inr s8 \<and>
           s' = log_line LSaved s8"
  using assms unfolding process_single_game_try_def
  by (auto simp: Let_def log_line_def
      split: prod.splits if_splits sum.splits list.splits option.splits)

lemma saved_item:
  assumes "process_single_game_try g s = (s', Inr ())" and "last (log_label s') = LSaved"
  shows "\<exists>s1 results game resolved game_id s3 icon others url s5 img s6 result q.
           search_game g s = (s1, results) \<and>
           py_getitem0 results = Inr game \<and>
           py_getitem game ''name'' = Inr resolved \<and>
           py_getitem game ''id'' = Inr game_id \<and>
           get_game_icons game_id (log_line (LFound resolved) s1) = (s3, icon # others) \<and>
           py_getitem icon ''url'' = Inr url \<and>
           download_image url (log_line LDownloading s3) = (s5, Some img) \<and>
           apply_overlay img s5 = (s6, Some result) \<and>
           locate s' (output_path_of s resolved) = Inr q \<and>
           nodes s' q = Some (File (PngOf result)) \<and>
           fs_is_dir s' (output_dir_of s) \<and>
           (\<forall>k. k \<noteq> q \<longrightarrow>
                nodes s' k = nodes s k \<or>
                (nodes s k = None \<and> nodes s' k = Some Dir \<and>
                 k \<in> set (places s (output_dir_of s))))"
proof -
  from saved_item_steps [OF assms]
  obtain s1 results game name game_id s3 icon others url s5 img s6 result s7 s8 where
    st: "search_game g s = (s1, results)" "py_getitem0 results = Inr game"
      "py_getitem game ''name'' = Inr name" "py_getitem game ''id'' = Inr game_id"
      "get_game_icons game_id (log_line (LFound name) s1) = (s3, icon # others)"
      "py_getitem icon ''url'' = Inr url"
      "download_image url (log_line LDownloading s3) = (s5, Some img)"
      "apply_overlay img s5 = (s6, Some result)"
    and m: "path_mkdir (output_dir_of s6) s6 = (s7, Inr ())"
    and w: "image_save result (output_path_of s7 name) s7 = Inr s8"
    and s': "s' = log_line LSaved s8"
    by blast
  have e6: "nodes s6 = nodes s" "cwd s6 = cwd s" "DEFAULT_OUTPUT s6 = DEFAULT_OUTPUT s"
    "console_spinner s6 = console_spinner s" "py_str s6 = py_str s"
    using search_game_env [OF st(1)] get_game_icons_env [OF st(5)]
      download_image_env [OF st(7)] apply_overlay_env [OF st(8)]
    by (simp_all add: log_line_def)
  have d6: "output_dir_of s6 = output_dir_of s"
    using e6 by (simp add: output_dir_of_def)
  have p7: "output_path_of s7 name = output_path_of s name"
    using path_mkdir_env [OF m] e6 by (simp add: output_path_of_def output_dir_of_def)
  from mkdir_then_save [OF m w] obtain q where
    q: "locate s8 (output_path_of s name) = Inr q" "nodes s8 q = Some (File (PngOf result))"
      "fs_is_dir s8 (output_dir_of s)"
      "\<forall>k. k \<noteq> q \<longrightarrow> nodes s8 k = nodes s6 k \<or>
           (nodes s6 k = None \<and> nodes s8 k = Some Dir \<and> k \<in> set (places s (output_dir_of s)))"
    unfolding p7 d6 places_cwd [OF e6(2)] by blast
  have n: "nodes s' = nodes s8" and cw: "cwd s' = cwd s8"
    using s' by (simp_all add: log_line_def)
  have l: "locate s' (output_path_of s name) = Inr q"
    using q(1) by (simp only: locate_def n cw)
  have f: "fs_is_dir s' (output_dir_of s)"
    using q(3) by (simp only: fs_is_dir_def locate_def n cw)
  from st l f q(2) q(4) show ?thesis unfolding n e6(1) by blast
qed

text \<open>
  Claim C6 as stated fails for a resolved name that begins with a slash: joining an
  absolute path discards the output root and the console folder. The item is processed
  successfully and its file is written to the root directory of the file system.
\<close>

theorem output_file_path_counterexample:
  "snd (process_single_game_try ''Doom'' demo_app) = Inr ()
   \<and> log_label (fst (process_single_game_try ''Doom'' demo_app))
        = [LFound (JStr ''/Doom''), LDownloading, LSaved]
   \<and> DEFAULT_OUTPUT demo_app = (''/'', [''opt'', ''app'', ''Output''])
   \<and> console_spinner demo_app = ''NES''
   \<and> output_path_of demo_app (JStr ''/Doom'') = (''/'', [''Doom.png''])
   \<and> locate (fst (process_single_game_try ''Doom'' demo_app)) (output_path_of demo_app (JStr ''/Doom''))
        = Inr (''/'', [''Doom.png''])
   \<and> nodes (fst (process_single_game_try ''Doom'' demo_app)) (''/'', [''Doom.png'']) \<noteq> None
   \<and> nodes (fst (process_single_game_try ''Doom'' demo_app))
        (''/'', [''opt'', ''app'', ''Output'', ''NES'', ''Doom.png'']) = None
   \<and> nodes (fst (process_single_game_try ''Doom'' demo_app))
        (''/'', [''opt'', ''app'', ''Output'', ''NES'', ''/Doom.png'']) = None"
  by code_simp

text \<open>
  Claim C6, amended. The output path is the output root joined with the console name and
  then with the resolved name followed by \<^verbatim>\<open>.png\<close>; it depends on nothing else. When the
  console name is a plain path component and the resolved name has no slash, the path is
  the root's components followed by the console name and by name\<^verbatim>\<open>.png\<close>. When an item is
  saved, the search gave a record, the record its name and its identity, the catalogue a
  first icon, the download of its URL an image, and the compositor a composite of that
  image; afterwards the output path resolves to a location that holds the PNG of this
  composite, whatever was there before, the output directory is a directory, and any
  other location holds what it held before or, where nothing was and the system passes
  on its way to the output directory, a new directory.
\<close>

theorem output_file_path:
  "output_path_of s name =
     path_join (path_join (DEFAULT_OUTPUT s) (console_spinner s))
       (format_value (py_str s) name @ ''.png'')
   \<and> (plain_component (console_spinner s) \<and>
       CHR ''/'' \<notin> set (format_value (py_str s) name) \<longrightarrow>
        output_path_of s name =
          (fst (DEFAULT_OUTPUT s),
           snd (DEFAULT_OUTPUT s) @ [console_spinner s, format_value (py_str s) name @ ''.png'']))
   \<and> (process_single_game_try g s = (s', Inr ()) \<and> last (log_label s') = LSaved \<longrightarrow>
        (\<exists>s1 results game resolved game_id s3 icon others url s5 img s6 result q.
           search_game g s = (s1, results) \<and>
           py_getitem0 results = Inr game \<and>
           py_getitem game ''name'' = Inr resolved \<and>
           py_getitem game ''id'' = Inr game_id \<and>
           get_game_icons game_id (log_line (LFound resolved) s1) = (s3, icon # others) \<and>
           py_getitem icon ''url'' = Inr url \<and>
           download_image url (log_line LDownloading s3) = (s5, Some img) \<and>
           apply_overlay img s5 = (s6, Some result) \<and>
           locate s' (output_path_of s resolved) = Inr q \<and>
           nodes s' q = Some (File (PngOf result)) \<and>
           fs_is_dir s' (output_dir_of s) \<and>
           (\<forall>k. k \<noteq> q \<longrightarrow>
                nodes s' k = nodes s k \<or>
                (nodes s k = None \<and> nodes s' k = Some Dir \<and>
                 k \<in> set (places s (output_dir_of s))))))"
proof -
  have a: "output_path_of s name =
     path_join (path_join (DEFAULT_OUTPUT s) (console_spinner s))
       (format_value (py_str s) name @ ''.png'')"
    by (simp add: output_path_of_def output_dir_of_def)
  have b: "plain_component (console_spinner s) \<and>
       CHR ''/'' \<notin> set (format_value (py_str s) name) \<longrightarrow>
        output_path_of s name =
          (fst (DEFAULT_OUTPUT s),
           snd (DEFAULT_OUTPUT s) @ [console_spinner s, format_value (py_str s) name @ ''.png''])"
    using output_path_plain by blast
  have c: "process_single_game_try g s = (s', Inr ()) \<and> last (log_label s') = LSaved \<longrightarrow>
        (\<exists>s1 results game resolved game_id s3 icon others url s5 img s6 result q.
           search_game g s = (s1, results) \<and>
           py_getitem0 results = Inr game \<and>
           py_getitem game ''name'' = Inr resolved \<and>
           py_getitem game ''id'' = Inr game_id \<and>
           get_game_icons game_id (log_line (LFound resolved) s1) = (s3, icon # others) \<and>
           py_getitem icon ''url'' = Inr url \<and>
           download_image url (log_line LDownloading s3) = (s5, Some img) \<and>
           apply_overlay img s5 = (s6, Some result) \<and>
           locate s' (output_path_of s resolved) = Inr q \<and>
           nodes s' q = Some (File (PngOf result)) \<and>
           fs_is_dir s' (output_dir_of s) \<and>
           (\<forall>k. k \<noteq> q \<longrightarrow>
                nodes s' k = nodes s k \<or>
                (nodes s k = None \<and> nodes s' k = Some Dir \<and>
                 k \<in> set (places s (output_dir_of s)))))"
    using saved_item by blast
  from a b c show ?thesis by blast
qed

theorem output_file_path_witness:
  "plain_component (console_spinner demo_app)
   \<and> CHR ''/'' \<notin> set (format_value (py_str demo_app) (JStr ''Zelda II''))
   \<and> output_path_of demo_app (JStr ''Zelda II'')
        = (''/'', [''opt'', ''app'', ''Output'', ''NES'', ''Zelda II.png''])
   \<and> process_single_game_try ''Zelda'' demo_app
        = (fst (process_single_game_try ''Zelda'' demo_app), Inr ())
   \<and> last (log_label (fst (process_single_game_try ''Zelda'' demo_app))) = LSaved
   \<and> (\<exists>s1 results game resolved game_id s3 icon others url s5 img s6 result q.
         search_game ''Zelda'' demo_app = (s1, results) \<and>
         py_getitem0 results = Inr game \<and>
         py_getitem game ''name'' = Inr resolved \<and>
         py_getitem game ''id'' = Inr game_id \<and>
         get_game_icons game_id (log_line (LFound resolved) s1) = (s3, icon # others) \<and>
         py_getitem icon ''url'' = Inr url \<and>
         download_image url (log_line LDownloading s3) = (s5, Some img) \<and>
         apply_overlay img s5 = (s6, Some result) \<and>
         locate (fst (process_single_game_try ''Zelda'' demo_app))
           (output_path_of demo_app resolved) = Inr q \<and>
         nodes (fst (process_single_game_try ''Zelda'' demo_app)) q
           = Some (File (PngOf result)) \<and>
         fs_is_dir (fst (process_single_game_try ''Zelda'' demo_app)) (output_dir_of demo_app) \<and>
         (\<forall>k. k \<noteq> q \<longrightarrow>
              nodes (fst (process_single_game_try ''Zelda'' demo_app)) k = nodes demo_app k \<or>
              (nodes demo_app k = None \<and>
               nodes (fst (process_single_game_try ''Zelda'' demo_app)) k = Some Dir \<and>
               k \<in> set (places demo_app (output_dir_of demo_app)))))
   \<and> nodes (fst (process_single_game_try ''Zelda'' demo_app))
        (''/'', [''opt'', ''app'', ''Output'', ''NES'', ''Zelda II.png''])
        = Some (File (PngOf
            (AlphaComposite
              (PutAlpha (Convert (Raster 1 ''RGB'' (1024, 1024)) ''RGBA'')
                 (RoundedRectangle (NewImage ''L'' (1024, 1024) 0) ((0, 0), (1024, 1024)) 120 255))
              (Resize (Convert (Raster 2 ''RGBA'' (512, 512)) ''RGBA'') (1024, 1024) ''LANCZOS''))))
   \<and> places demo_app (output_dir_of demo_app)
        = [(''/'', []), (''/'', [''opt'']), (''/'', [''opt'', ''app'']),
           (''/'', [''opt'', ''app'', ''Output'']), (''/'', [''opt'', ''app'', ''Output'', ''NES''])]
   \<and> nodes demo_app (''/'', [''opt'', ''app'', ''Output'']) = None
   \<and> nodes (fst (process_single_game_try ''Zelda'' demo_app))
        (''/'', [''opt'', ''app'', ''Output'']) = Some Dir
   \<and> nodes (fst (process_single_game_try ''Zelda'' demo_app))
        (''/'', [''opt'', ''app'', ''Output'', ''NES'']) = Some Dir"
proof -
  let ?s' = "fst (process_single_game_try ''Zelda'' demo_app)"
  note t = output_file_path [of demo_app "JStr ''Zelda II''" "''Zelda''" ?s']
  have h1: "plain_component (console_spinner demo_app)" by code_simp
  have h2: "CHR ''/'' \<notin> set (format_value (py_str demo_app) (JStr ''Zelda II''))" by code_simp
  have "snd (process_single_game_try ''Zelda'' demo_app) = Inr ()" by code_simp
  then have h3: "process_single_game_try ''Zelda'' demo_app = (?s', Inr ())"
    by (metis prod.collapse)
  have h4: "last (log_label ?s') = LSaved" by code_simp
  have e: "(fst (DEFAULT_OUTPUT demo_app),
            snd (DEFAULT_OUTPUT demo_app)
              @ [console_spinner demo_app, format_value (py_str demo_app) (JStr ''Zelda II'') @ ''.png''])
           = (''/'', [''opt'', ''app'', ''Output'', ''NES'', ''Zelda II.png''])"
    by code_simp
  from t h1 h2 have a: "output_path_of demo_app (JStr ''Zelda II'')
      = (''/'', [''opt'', ''app'', ''Output'', ''NES'', ''Zelda II.png''])"
    unfolding e by blast
  from t h3 h4 have b: "\<exists>s1 results game resolved game_id s3 icon others url s5 img s6 result q.
         search_game ''Zelda'' demo_app = (s1, results) \<and>
         py_getitem0 results = Inr game \<and>
         py_getitem game ''name'' = Inr resolved \<and>
         py_getitem game ''id'' = Inr game_id \<and>
         get_game_icons game_id (log_line (LFound resolved) s1) = (s3, icon # others) \<and>
         py_getitem icon ''url'' = Inr url \<and>
         download_image url (log_line LDownloading s3) = (s5, Some img) \<and>
         apply_overlay img s5 = (s6, Some result) \<and>
         locate ?s' (output_path_of demo_app resolved) = Inr q \<and>
         nodes ?s' q = Some (File (PngOf result)) \<and>
         fs_is_dir ?s' (output_dir_of demo_app) \<and>
         (\<forall>k. k \<noteq> q \<longrightarrow>
              nodes ?s' k = nodes demo_app k \<or>
              (nodes demo_app k = None \<and> nodes ?s' k = Some Dir \<and>
               k \<in> set (places demo_app (output_dir_of demo_app))))"
    by blast
  have c: "nodes ?s' (''/'', [''opt'', ''app'', ''Output'', ''NES'', ''Zelda II.png''])
        = Some (File (PngOf
            (AlphaComposite
              (PutAlpha (Convert (Raster 1 ''RGB'' (1024, 1024)) ''RGBA'')
                 (RoundedRectangle (NewImage ''L'' (1024, 1024) 0) ((0, 0), (1024, 1024)) 120 255))
              (Resize (Convert (Raster 2 ''RGBA'' (512, 512)) ''RGBA'') (1024, 1024) ''LANCZOS''))))"
    by code_simp
  have d: "nodes demo_app (''/'', [''opt'', ''app'', ''Output'']) = None"
    "nodes ?s' (''/'', [''opt'', ''app'', ''Output'']) = Some Dir"
    "nodes ?s' (''/'', [''opt'', ''app'', ''Output'', ''NES'']) = Some Dir"
    by code_simp+
  have pl: "places demo_app (output_dir_of demo_app)
        = [(''/'', []), (''/'', [''opt'']), (''/'', [''opt'', ''app'']),
           (''/'', [''opt'', ''app'', ''Output'']), (''/'', [''opt'', ''app'', ''Output'', ''NES''])]"
    by code_simp
  from a b c d pl h1 h2 h3 h4 show ?thesis by blast
qed

text \<open>
  Saving again overwrites: a second run for the same game, started where the first one
  ended, is saved to the same location, which holds the same PNG, and its directory lists
  the file once.
\<close>

lemma output_file_overwritten:
  "log_label (process_single_game ''Zelda'' (process_single_game ''Zelda'' demo_app))
     = [LFound (JStr ''Zelda II''), LDownloading, LSaved,
        LFound (JStr ''Zelda II''), LDownloading, LSaved]
   \<and> nodes (process_single_game ''Zelda'' (process_single_game ''Zelda'' demo_app))
        (''/'', [''opt'', ''app'', ''Output'', ''NES'', ''Zelda II.png''])
      = nodes (process_single_game ''Zelda'' demo_app)
          (''/'', [''opt'', ''app'', ''Output'', ''NES'', ''Zelda II.png''])
   \<and> listdir (process_single_game ''Zelda'' (process_single_game ''Zelda'' demo_app))
        (''/'', [''opt'', ''app'', ''Output'', ''NES'']) = [''Zelda II.png'']"
  by code_simp

text \<open>
  A resolved name that climbs out of the console folder: the console folder is made, and
  the file is written beside it.
\<close>

lemma output_file_beside_console_folder:
  "snd (process_single_game_try ''Up'' demo_app) = Inr ()
   \<and> log_label (fst (process_single_game_try ''Up'' demo_app))
        = [LFound (JStr ''../Up''), LDownloading, LSaved]
   \<and> output_path_of demo_app (JStr ''../Up'')
        = (''/'', [''opt'', ''app'', ''Output'', ''NES'', ''..'', ''Up.png''])
   \<and> locate (fst (process_single_game_try ''Up'' demo_app)) (output_path_of demo_app (JStr ''../Up''))
        = Inr (''/'', [''opt'', ''app'', ''Output'', ''Up.png''])
   \<and> nodes (fst (process_single_game_try ''Up'' demo_app))
        (''/'', [''opt'', ''app'', ''Output'', ''Up.png'']) \<noteq> None
   \<and> nodes (fst (process_single_game_try ''Up'' demo_app))
        (''/'', [''opt'', ''app'', ''Output'', ''NES'']) = Some Dir"
  by code_simp

section \<open>What the console registry returns\<close>

lemma Path_overlay_png: "Path ''overlay.png'' = ('''', [''overlay.png''])"
  by code_simp

lemma path_join_overlay_png: "path_join p ''overlay.png'' = path_child p ''overlay.png''"
  by (simp add: path_join_def Path_overlay_png path_child_def)

lemma path_name_child: "path_name (path_child p n) = n"
  by (simp add: path_name_def path_child_def)

lemma consoles_in_inspectable:
  "list_all (inspectable s folder) names \<Longrightarrow>
   consoles_in s (map (path_child folder) names) = Inr (filter (has_overlay s folder) names)"
  by (induction names)
     (auto simp: path_is_dir_def path_exists_def path_join_overlay_png path_name_child
        has_overlay_def inspectable_def)

lemma consoles_in_refused:
  "\<not> list_all (inspectable s folder) names \<Longrightarrow>
   \<exists>e. consoles_in s (map (path_child folder) names) = Inl e"
  by (induction names)
     (auto simp: path_is_dir_def path_exists_def path_join_overlay_png inspectable_def
        split: option.splits sum.splits)

lemma sort_eq_Nil: "sort xs = [] \<longleftrightarrow> xs = []"
proof
  assume "sort xs = []"
  then have "length (sort xs) = 0" by simp
  then show "xs = []" by simp
qed simp

lemma iterdir_of_dir:
  "fs_is_dir s p \<Longrightarrow> io_fault s (ListDir p) = None \<Longrightarrow>
   fs_exists s p \<and> path_iterdir s p = Inr (map (path_child p) (entries_of s p))"
  by (auto simp: fs_is_dir_def fs_exists_def path_iterdir_def entries_of_def split: sum.splits)

lemma iterdir_not_dir: "\<not> fs_is_dir s p \<Longrightarrow> \<exists>e. path_iterdir s p = Inl e"
  by (auto simp: fs_is_dir_def path_iterdir_def split: sum.splits option.splits node.splits)

text \<open>
  Claim C7 as stated fails when the system refuses to inspect one entry of the root. Here
  the root is a directory that can be inspected and listed, and two of its entries are
  directories holding \<^verbatim>\<open>overlay.png\<close>; the lookup of \<^verbatim>\<open>overlay.png\<close> in a third entry is
  refused, the exception leaves the comprehension, and the result is the one-element list
  \<^verbatim>\<open>['No consoles found']\<close> instead of the two names.
\<close>

theorem get_available_consoles_lists_consoles_counterexample:
  "io_fault demo_refused (Stat (overlays_folder_of demo_refused)) = None
   \<and> io_fault demo_refused (ListDir (overlays_folder_of demo_refused)) = None
   \<and> fs_is_dir demo_refused (overlays_folder_of demo_refused)
   \<and> entries_of demo_refused (overlays_folder_of demo_refused)
        = [''NES'', ''notes.txt'', ''drafts'', ''GBA'']
   \<and> filter (has_overlay demo_refused (overlays_folder_of demo_refused))
        (entries_of demo_refused (overlays_folder_of demo_refused)) = [''NES'', ''GBA'']
   \<and> get_available_consoles demo_refused = [''No consoles found'']"
  by code_simp

text \<open>
  Claim C7, amended. \<^verbatim>\<open>get_available_consoles\<close> has no exceptional result, and its result
  is never empty and always sorted. Any exception in its \<^verbatim>\<open>try\<close> block gives the
  one-element list \<^verbatim>\<open>['No consoles found']\<close>; so does a root that is missing, that is not
  a directory, or that the system refuses to inspect or to list. For a root directory
  that can be inspected and listed, the result is the sorted list of the names of its
  entries that are directories holding an entry named \<^verbatim>\<open>overlay.png\<close>, provided that
  there is such an entry and that every entry of the root can be inspected; it is the
  one-element list \<^verbatim>\<open>['No consoles found']\<close> when there is no such entry or when the
  system refuses to inspect any one entry.
\<close>

theorem get_available_consoles_lists_consoles:
  "get_available_consoles s \<noteq> []
   \<and> sorted (get_available_consoles s)
   \<and> ((\<exists>e. get_available_consoles_try s = Inl e) \<longrightarrow>
        get_available_consoles s = [''No consoles found''])
   \<and> (io_fault s (Stat (overlays_folder_of s)) \<noteq> None \<or>
       \<not> fs_is_dir s (overlays_folder_of s) \<or>
       io_fault s (ListDir (overlays_folder_of s)) \<noteq> None \<longrightarrow>
        get_available_consoles s = [''No consoles found''])
   \<and> (io_fault s (Stat (overlays_folder_of s)) = None \<and>
       fs_is_dir s (overlays_folder_of s) \<and>
       io_fault s (ListDir (overlays_folder_of s)) = None \<longrightarrow>
        get_available_consoles s =
          (if list_all (inspectable s (overlays_folder_of s)) (entries_of s (overlays_folder_of s)) \<and>
              filter (has_overlay s (overlays_folder_of s)) (entries_of s (overlays_folder_of s)) \<noteq> []
           then sort (filter (has_overlay s (overlays_folder_of s))
                        (entries_of s (overlays_folder_of s)))
           else [''No consoles found'']))"
proof -
  let ?root = "overlays_folder_of s"
  have a: "get_available_consoles s \<noteq> []"
    by (auto simp: get_available_consoles_def get_available_consoles_try_def Let_def sort_eq_Nil
        split: sum.splits option.splits bool.splits if_splits)
  have b: "sorted (get_available_consoles s)"
    by (auto simp: get_available_consoles_def get_available_consoles_try_def Let_def
        split: sum.splits option.splits bool.splits if_splits)
  have c: "(\<exists>e. get_available_consoles_try s = Inl e) \<longrightarrow>
        get_available_consoles s = [''No consoles found'']"
    by (auto simp: get_available_consoles_def)
  have d: "io_fault s (Stat ?root) \<noteq> None \<or> \<not> fs_is_dir s ?root \<or>
       io_fault s (ListDir ?root) \<noteq> None \<longrightarrow>
        get_available_consoles s = [''No consoles found'']"
  proof (intro impI)
    assume h: "io_fault s (Stat ?root) \<noteq> None \<or> \<not> fs_is_dir s ?root \<or>
       io_fault s (ListDir ?root) \<noteq> None"
    have "get_available_consoles_try s = Inr None \<or> (\<exists>e. get_available_consoles_try s = Inl e)"
    proof (cases "io_fault s (Stat ?root) \<noteq> None")
      case True
      then show ?thesis
        by (auto simp: get_available_consoles_try_def Let_def path_exists_def)
    next
      case False
      have "\<exists>e. path_iterdir s ?root = Inl e"
      proof (cases "fs_is_dir s ?root")
        case True
        then have "io_fault s (ListDir ?root) \<noteq> None" using h False by blast
        then show ?thesis by (auto simp: path_iterdir_def)
      next
        case False
        then show ?thesis by (rule iterdir_not_dir)
      qed
      then show ?thesis
        by (auto simp: get_available_consoles_try_def Let_def split: sum.splits bool.splits)
    qed
    then show "get_available_consoles s = [''No consoles found'']"
      by (auto simp: get_available_consoles_def)
  qed
  have e: "io_fault s (Stat ?root) = None \<and> fs_is_dir s ?root \<and>
       io_fault s (ListDir ?root) = None \<longrightarrow>
        get_available_consoles s =
          (if list_all (inspectable s ?root) (entries_of s ?root) \<and>
              filter (has_overlay s ?root) (entries_of s ?root) \<noteq> []
           then sort (filter (has_overlay s ?root) (entries_of s ?root))
           else [''No consoles found''])"
  proof (intro impI, elim conjE)
    assume h: "io_fault s (Stat ?root) = None" "fs_is_dir s ?root"
      "io_fault s (ListDir ?root) = None"
    from iterdir_of_dir [OF h(2) h(3)] have
      ex: "path_exists s ?root = Inr True" and
      it: "path_iterdir s ?root = Inr (map (path_child ?root) (entries_of s ?root))"
      using h(1) by (simp_all add: path_exists_def)
    show "get_available_consoles s =
          (if list_all (inspectable s ?root) (entries_of s ?root) \<and>
              filter (has_overlay s ?root) (entries_of s ?root) \<noteq> []
           then sort (filter (has_overlay s ?root) (entries_of s ?root))
           else [''No consoles found''])"
    proof (cases "list_all (inspectable s ?root) (entries_of s ?root)")
      case True
      from consoles_in_inspectable [OF True] show ?thesis
        using True ex it
        by (simp add: get_available_consoles_def get_available_consoles_try_def Let_def)
    next
      case False
      from consoles_in_refused [OF False] show ?thesis
        using False ex it
        by (auto simp: get_available_consoles_def get_available_consoles_try_def Let_def)
    qed
  qed
  from a b c d e show ?thesis by blast
qed

theorem get_available_consoles_lists_consoles_witness:
  "io_fault demo_app (Stat (overlays_folder_of demo_app)) = None
   \<and> fs_is_dir demo_app (overlays_folder_of demo_app)
   \<and> io_fault demo_app (ListDir (overlays_folder_of demo_app)) = None
   \<and> entries_of demo_app (overlays_folder_of demo_app) = [''NES'', ''notes.txt'', ''drafts'', ''GBA'']
   \<and> list_all (inspectable demo_app (overlays_folder_of demo_app))
        (entries_of demo_app (overlays_folder_of demo_app))
   \<and> filter (has_overlay demo_app (overlays_folder_of demo_app))
        (entries_of demo_app (overlays_folder_of demo_app)) = [''NES'', ''GBA'']
   \<and> get_available_consoles demo_app = [''GBA'', ''NES'']
   \<and> \<not> fs_is_dir (demo_app\<lparr>overlays_path_input := Some ''nowhere''\<rparr>)
        (overlays_folder_of (demo_app\<lparr>overlays_path_input := Some ''nowhere''\<rparr>))
   \<and> get_available_consoles (demo_app\<lparr>overlays_path_input := Some ''nowhere''\<rparr>)
        = [''No consoles found'']
   \<and> io_fault demo_locked (ListDir (overlays_folder_of demo_locked)) \<noteq> None
   \<and> get_available_consoles demo_locked = [''No consoles found'']"
proof -
  let ?m = "demo_app\<lparr>overlays_path_input := Some ''nowhere''\<rparr>"
  have h1: "io_fault demo_app (Stat (overlays_folder_of demo_app)) = None"
    "io_fault demo_app (ListDir (overlays_folder_of demo_app)) = None"
    by (simp_all add: demo_app_def)
  have h2: "fs_is_dir demo_app (overlays_folder_of demo_app)" by code_simp
  have h3: "entries_of demo_app (overlays_folder_of demo_app)
              = [''NES'', ''notes.txt'', ''drafts'', ''GBA'']"
    by code_simp
  have h4: "filter (has_overlay demo_app (overlays_folder_of demo_app))
        (entries_of demo_app (overlays_folder_of demo_app)) = [''NES'', ''GBA'']"
    by code_simp
  have h5: "list_all (inspectable demo_app (overlays_folder_of demo_app))
        (entries_of demo_app (overlays_folder_of demo_app))"
    by (simp add: inspectable_def demo_app_def list_all_iff)
  have h6: "sort [''NES'', ''GBA''] = [''GBA'', ''NES'']" by code_simp
  have h7: "\<not> fs_is_dir ?m (overlays_folder_of ?m)" by code_simp
  have h8: "io_fault demo_locked (ListDir (overlays_folder_of demo_locked)) \<noteq> None" by code_simp
  from get_available_consoles_lists_consoles [of demo_app] h1 h2
  have "get_available_consoles demo_app =
          (if list_all (inspectable demo_app (overlays_folder_of demo_app))
                (entries_of demo_app (overlays_folder_of demo_app)) \<and>
              filter (has_overlay demo_app (overlays_folder_of demo_app))
                (entries_of demo_app (overlays_folder_of demo_app)) \<noteq> []
           then sort (filter (has_overlay demo_app (overlays_folder_of demo_app))
                        (entries_of demo_app (overlays_folder_of demo_app)))
           else [''No consoles found''])"
    by blast
  then have a: "get_available_consoles demo_app = [''GBA'', ''NES'']"
    using h5 unfolding h4 h6 by simp
  have b: "get_available_consoles ?m = [''No consoles found'']"
    using get_available_consoles_lists_consoles [of ?m] h7 by blast
  have c: "get_available_consoles demo_locked = [''No consoles found'']"
    using get_available_consoles_lists_consoles [of demo_locked] h8 by blast
  from a b c h1 h2 h3 h4 h5 h7 h8 show ?thesis by blast
qed

section \<open>The search request\<close>

lemma split_on_append_sep: "split_on c (xs @ c # ys) = split_on c xs @ split_on c ys"
  by (induction xs) (auto simp: split_on_not_Nil split: list.splits)

lemma final_segment_after_slash:
  "CHR ''/'' \<notin> set name \<Longrightarrow> spec_final_segment (pre @ CHR ''/'' # name) = name"
  by (simp add: spec_final_segment_def split_on_append_sep split_on_no_sep split_on_not_Nil)

lemma autocomplete_endpoint_slash:
  "autocomplete_endpoint = butlast autocomplete_endpoint @ [CHR ''/'']"
  by (simp add: autocomplete_endpoint_def)

lemma unreserved_not_slash: "spec_unreserved c \<Longrightarrow> c \<noteq> CHR ''/''"
  by (auto simp: spec_unreserved_def Let_def)

lemma encode_unreserved: "list_all spec_unreserved name \<Longrightarrow> spec_encode_path_segment name = name"
  by (induction name) (auto simp: spec_encode_path_segment_def spec_encode_char_def)

lemma search_game_request:
  "net (fst (search_game name s)) = net s @ [search_request s name]"
  by (simp add: search_game_def requests_get_def)

text \<open>
  Claim C8 as stated fails for a name with a slash: the name goes into the URL as it is,
  so the URL's final segment is only the part of the name after its last slash, and the
  URL is not the endpoint followed by the name's encoding.
\<close>

theorem search_request_url_counterexample:
  "net (fst (search_game ''AC/DC'' demo_app)) =
     [\<lparr>req_url = JStr ''https://www.steamgriddb.com/api/v2/search/autocomplete/AC/DC'',
       req_headers = [(''Authorization'', ''Bearer abc'')],
       req_params = [], req_timeout = 10\<rparr>]
   \<and> autocomplete_endpoint @ spec_encode_path_segment ''AC/DC''
        = ''https://www.steamgriddb.com/api/v2/search/autocomplete/AC%2FDC''
   \<and> spec_final_segment ''https://www.steamgriddb.com/api/v2/search/autocomplete/AC/DC'' = ''DC''
   \<and> ''DC'' \<noteq> spec_encode_path_segment ''AC/DC''"
  by code_simp

text \<open>
  Claim C8, amended. The search makes one call: its URL is the autocomplete endpoint
  followed by the game name character for character, with no encoding applied, its only
  header is \<^verbatim>\<open>Authorization: Bearer\<close> with the API key stripped of surrounding whitespace,
  and its timeout is 10. For a name of unreserved characters only, this URL is the endpoint
  followed by the name's path-segment encoding, and the name is the URL's final segment.
\<close>

theorem search_request_url:
  "net (fst (search_game name s)) =
     net s @ [\<lparr>req_url = JStr (autocomplete_endpoint @ name),
               req_headers = [(''Authorization'', ''Bearer '' @ strip (api_key_input s))],
               req_params = [], req_timeout = 10\<rparr>]
   \<and> (list_all spec_unreserved name \<longrightarrow>
        autocomplete_endpoint @ name = autocomplete_endpoint @ spec_encode_path_segment name \<and>
        spec_final_segment (autocomplete_endpoint @ name) = name)"
proof -
  have a: "net (fst (search_game name s)) =
     net s @ [\<lparr>req_url = JStr (autocomplete_endpoint @ name),
               req_headers = [(''Authorization'', ''Bearer '' @ strip (api_key_input s))],
               req_params = [], req_timeout = 10\<rparr>]"
    by (simp add: search_game_request search_request_def auth_headers_def)
  have b: "list_all spec_unreserved name \<longrightarrow>
        autocomplete_endpoint @ name = autocomplete_endpoint @ spec_encode_path_segment name \<and>
        spec_final_segment (autocomplete_endpoint @ name) = name"
  proof
    assume u: "list_all spec_unreserved name"
    then have "CHR ''/'' \<notin> set name"
      using unreserved_not_slash by (auto simp: list_all_iff)
    then have "spec_final_segment ((butlast autocomplete_endpoint @ [CHR ''/'']) @ name) = name"
      using final_segment_after_slash [of name "butlast autocomplete_endpoint"] by simp
    then have "spec_final_segment (autocomplete_endpoint @ name) = name"
      using autocomplete_endpoint_slash by simp
    then show "autocomplete_endpoint @ name = autocomplete_endpoint @ spec_encode_path_segment name \<and>
        spec_final_segment (autocomplete_endpoint @ name) = name"
      using encode_unreserved [OF u] by simp
  qed
  from a b show ?thesis by blast
qed

theorem search_request_url_witness:
  "list_all spec_unreserved ''Halo''
   \<and> net (fst (search_game ''Halo'' demo_app)) =
       net demo_app @ [\<lparr>req_url = JStr (autocomplete_endpoint @ ''Halo''),
                         req_headers = [(''Authorization'', ''Bearer '' @ strip (api_key_input demo_app))],
                         req_params = [], req_timeout = 10\<rparr>]
   \<and> autocomplete_endpoint @ ''Halo'' = autocomplete_endpoint @ spec_encode_path_segment ''Halo''
   \<and> spec_final_segment (autocomplete_endpoint @ ''Halo'') = ''Halo''"
proof -
  have h: "list_all spec_unreserved ''Halo''" by code_simp
  from search_request_url [of "''Halo''" demo_app] h show ?thesis by blast
qed

end
